theory Spec2Isabelle
  imports Complex_Main "HOL-Library.Word" "HOL-Library.List_Lexorder" "HOL-Library.Char_ord"
begin

section \<open>Data model of deepdive_calibrate.cc\<close>

text \<open>
  The calibration node keeps its session in process-wide variables and changes them from
  its callbacks. The embedding passes these variables around as one record.

  Numbers: every \<open>double\<close> and \<open>float\<close> of the source is a \<open>real\<close> here, so rounding
  error is outside the model. A \<open>ros::Time\<close> key is read as its value in seconds.
  Strings are byte lists, ordered as \<open>std::string\<close> orders them (lexicographically by
  unsigned byte), which is the order in which a \<open>std::map\<close> keyed by a serial iterates.
\<close>

type_synonym time = real
type_synonym vec2 = "real \<times> real"
type_synonym vec3 = "real \<times> real \<times> real"
type_synonym mat3 = "vec3 \<times> vec3 \<times> vec3"
type_synonym quat = "real \<times> real \<times> real \<times> real"

text \<open>A \<open>double[6]\<close>: three translation components, then an axis-angle rotation vector.\<close>

datatype arr6 = Arr6 real real real real real real

fun arr6_get :: "arr6 \<Rightarrow> nat \<Rightarrow> real" where
  "arr6_get (Arr6 a b c d e f) i =
     (if i = 0 then a else if i = 1 then b else if i = 2 then c
      else if i = 3 then d else if i = 4 then e else f)"

text \<open>\<open>a[i] = v\<close>. The source only ever writes at the constant indices 0 to 5.\<close>

fun arr6_set :: "arr6 \<Rightarrow> nat \<Rightarrow> real \<Rightarrow> arr6" where
  "arr6_set (Arr6 a b c d e f) i v =
     (if i = 0 then Arr6 v b c d e f else if i = 1 then Arr6 a v c d e f
      else if i = 2 then Arr6 a b v d e f else if i = 3 then Arr6 a b c v e f
      else if i = 4 then Arr6 a b c d v f else if i = 5 then Arr6 a b c d e v
      else Arr6 a b c d e f)"

definition arr6_zero :: arr6 where
  "arr6_zero = Arr6 0 0 0 0 0 0"

definition arr6_xyz :: "arr6 \<Rightarrow> vec3" where
  "arr6_xyz a = (arr6_get a 0, arr6_get a 1, arr6_get a 2)"

subsection \<open>std::map\<close>

text \<open>
  A \<open>std::map\<close> is an association list kept in key order: iteration is the list order,
  \<open>begin()\<close> is its head, \<open>find\<close> is \<open>map_of\<close>. \<open>smap_set k v m\<close> is \<open>m[k] = v\<close>;
  \<open>smap_get k d m\<close> is the value \<open>m[k]\<close> denotes, \<open>d\<close> being the value-initialised
  element that \<open>operator[]\<close> creates for a missing key; \<open>smap_upd k d f m\<close> changes
  \<open>m[k]\<close> in place by \<open>f\<close>.
\<close>

fun smap_set :: "'k::linorder \<Rightarrow> 'v \<Rightarrow> ('k \<times> 'v) list \<Rightarrow> ('k \<times> 'v) list" where
  "smap_set k v [] = [(k, v)]"
| "smap_set k v ((k', v') # m) =
     (if k < k' then (k, v) # (k', v') # m
      else if k = k' then (k, v) # m
      else (k', v') # smap_set k v m)"

definition smap_get :: "'k \<Rightarrow> 'v \<Rightarrow> ('k \<times> 'v) list \<Rightarrow> 'v" where
  "smap_get k d m = (case map_of m k of None \<Rightarrow> d | Some v \<Rightarrow> v)"

definition smap_upd ::
  "'k::linorder \<Rightarrow> 'v \<Rightarrow> ('v \<Rightarrow> 'v) \<Rightarrow> ('k \<times> 'v) list \<Rightarrow> ('k \<times> 'v) list" where
  "smap_upd k d f m = smap_set k (f (smap_get k d m)) m"

subsection \<open>Messages and configuration\<close>

text \<open>\<open>deepdive_ros::Pulse\<close> and \<open>deepdive_ros::Light\<close> (\<open>frame_id\<close> is \<open>header.frame_id\<close>).\<close>

record Pulse =
  sensor :: "8 word"
  angle :: real
  duration :: real

record Light =
  frame_id :: string
  lighthouse :: string
  axis :: "8 word"
  pulses :: "Pulse list"

record Measurement =
  light :: Light

text \<open>
  \<open>geometry_msgs::TransformStamped\<close>: \<open>tf_frame_id\<close> is \<open>header.frame_id\<close>,
  \<open>transform_translation\<close> is \<open>(x, y, z)\<close> and \<open>transform_rotation\<close> the quaternion
  \<open>(w, x, y, z)\<close>, in the order the source hands it to \<open>Eigen::Quaterniond\<close>.
\<close>

record TransformStamped =
  tf_frame_id :: string
  child_frame_id :: string
  transform_translation :: vec3
  transform_rotation :: quat

text \<open>
  \<open>Lighthouse\<close> and \<open>Tracker\<close> are declared in deepdive.hh; these are the fields the
  calibration node reads and writes (\<open>lh_ready\<close> and \<open>tr_ready\<close> are both \<open>ready\<close>
  in the source).
\<close>

record Lighthouse =
  params :: "real list"
  vTl :: arr6
  lh_ready :: bool

record Tracker =
  bTh :: arr6
  sensors :: "real list"
  tr_ready :: bool

text \<open>
  What the node has sent out, in order: the log lines that carry a computed value or mark
  the entry of \<open>Solve\<close>, the transform broadcast and the calibration file. The other
  progress lines and the rviz paths read the state and are not recorded.
\<close>

datatype event =
    Warn_insufficient_measurements
  | Info_processing_measurements nat
  | Info_no_corrections
  | Info_processing_corrections nat
  | Info_average_height real
  | SendTransforms arr6 "(string \<times> Lighthouse) list"
  | WriteConfig string arr6 "(string \<times> Lighthouse) list"

text \<open>
  The global variables the callbacks and \<open>Solve\<close> use, named as in the source without
  the trailing underscore. \<open>thresh_count\<close> is an \<open>int\<close>, read with \<open>sint\<close>.
\<close>

record state =
  trackers :: "(string \<times> Tracker) list"
  lighthouses :: "(string \<times> Lighthouse) list"
  measurements :: "(time \<times> Measurement) list"
  corrections :: "(time \<times> TransformStamped) list"
  calfile :: string
  frame_world :: string
  frame_body :: string
  thresh_count :: "32 word"
  thresh_angle :: real
  thresh_duration :: real
  recording :: bool
  correct :: bool
  res :: real
  offset :: "real list"
  wTv :: arr6
  rosout :: "event list"

record Response =
  success :: bool
  message :: string

record Affine3d =
  translation :: vec3
  linear :: mat3

definition Affine_Identity :: Affine3d where
  "Affine_Identity =
     \<lparr>translation = (0, 0, 0), linear = ((1, 0, 0), (0, 1, 0), (0, 0, 1))\<rparr>"

text \<open>
  What the node calls in OpenCV and Eigen, and what it takes from deepdive.hh without the
  source showing it: the number of photosensors of a tracker, the calibration model behind
  \<open>Correct\<close>, \<open>cv::solvePnPRansac\<close> (the rotation vector and the translation on success),
  \<open>cv::Rodrigues\<close>, the \<open>Eigen::AngleAxisd\<close> of a rotation matrix (angle and axis),
  \<open>Quaterniond::toRotationMatrix\<close>, and the least-squares fit inside \<open>Kabsch\<close>. Each is
  a function of its arguments; the theorems hold for every choice of them.
\<close>

record externals =
  NUM_SENSORS :: nat
  correct_model :: "real list \<Rightarrow> vec2 \<Rightarrow> vec2"
  solvePnPRansac :: "vec3 list \<Rightarrow> vec2 list \<Rightarrow> real \<Rightarrow> (vec3 \<times> vec3) option"
  Rodrigues :: "vec3 \<Rightarrow> mat3"
  AngleAxisd :: "mat3 \<Rightarrow> real \<times> vec3"
  toRotationMatrix :: "quat \<Rightarrow> mat3"
  kabsch_fit :: "vec3 list \<Rightarrow> vec3 list \<Rightarrow> Affine3d"

section \<open>LightCallback\<close>

text \<open>
  The rejection test of one pulse: \<open>thresh_angle\<close> is in degrees, \<open>thresh_duration\<close>
  in microseconds.
\<close>

definition rejected :: "state \<Rightarrow> Pulse \<Rightarrow> bool" where
  "rejected s p \<longleftrightarrow>
     angle p > thresh_angle s / 57.2958 \<or> duration p < thresh_duration s / 1000000"

text \<open>
  The backwards erase loop \<open>while (it-- > begin)\<close>: \<open>erase_loop s i ps\<close> is the loop with
  the iterator at index \<open>i\<close> before the test. The test decrements it, the body looks at
  that element, and \<open>erase\<close> returns the same index.
\<close>

fun erase_loop :: "state \<Rightarrow> nat \<Rightarrow> Pulse list \<Rightarrow> Pulse list" where
  "erase_loop s 0 ps = ps"
| "erase_loop s (Suc i) ps =
     (if rejected s (ps ! i) then erase_loop s i (take i ps @ drop (Suc i) ps)
      else erase_loop s i ps)"

text \<open>
  \<open>data.pulses.size() < thresh_count\<close> compares a \<open>size_t\<close> with an \<open>int\<close>: the
  \<open>int\<close> is converted to the unsigned 64-bit type first.
\<close>

definition size_lt_int :: "nat \<Rightarrow> 32 word \<Rightarrow> bool" where
  "size_lt_int n c \<longleftrightarrow> (word_of_nat n :: 64 word) < (signed c :: 64 word)"

text \<open>
  \<open>now\<close> is \<open>ros::Time::now()\<close> at the store. Restarting the one-shot timer is not part
  of the state.
\<close>

definition LightCallback :: "time \<Rightarrow> Light \<Rightarrow> state \<Rightarrow> state" where
  "LightCallback now msg s =
     (if \<not> recording s then s
      else case map_of (trackers s) (frame_id msg) of None \<Rightarrow> s | Some tr \<Rightarrow>
        (case map_of (lighthouses s) (lighthouse msg) of None \<Rightarrow> s | Some lh \<Rightarrow>
          if \<not> tr_ready tr \<or> \<not> lh_ready lh then s
          else
            let data = msg\<lparr>pulses := erase_loop s (length (pulses msg)) (pulses msg)\<rparr> in
            if size_lt_int (length (pulses data)) (thresh_count s) then s
            else s\<lparr>measurements := smap_set now \<lparr>light = data\<rparr> (measurements s)\<rparr>))"

section \<open>Solve\<close>

subsection \<open>Bundling into time bins\<close>

text \<open>C's \<open>round\<close> (halves away from zero) and \<open>ros::Time(round(t.toSec() / res_) * res_)\<close>.\<close>

definition c_round :: "real \<Rightarrow> real" where
  "c_round x = (if 0 \<le> x then of_int \<lfloor>x + 1 / 2\<rfloor> else of_int \<lceil>x - 1 / 2\<rceil>)"

definition bucket :: "state \<Rightarrow> time \<Rightarrow> time" where
  "bucket s t = c_round (t / res s) * res s"

type_synonym Samples = "(8 word \<times> (8 word \<times> real list) list) list"
type_synonym Bundle = "(time \<times> Samples) list"
type_synonym Bundles = "(string \<times> (string \<times> Bundle) list) list"
type_synonym PoseMap = "(string \<times> (time \<times> (string \<times> arr6) list) list) list"

text \<open>\<open>bundle[tserial][lserial][t][sensor][a].push_back(x)\<close>\<close>

definition push_sample ::
  "string \<Rightarrow> string \<Rightarrow> time \<Rightarrow> 8 word \<Rightarrow> 8 word \<Rightarrow> real \<Rightarrow> Bundles \<Rightarrow> Bundles" where
  "push_sample tserial lserial t sn a x =
     smap_upd tserial [] (smap_upd lserial [] (smap_upd t []
       (smap_upd sn [] (smap_upd a [] (\<lambda>v. v @ [x])))))"

definition bundle_measurements :: "state \<Rightarrow> Bundles" where
  "bundle_measurements s =
     fold (\<lambda>(stamp, m).
        fold (\<lambda>p. push_sample (frame_id (light m)) (lighthouse (light m)) (bucket s stamp)
                    (sensor p) (axis (light m)) (angle p))
          (pulses (light m)))
       (measurements s) []"

text \<open>The six assignments \<open>a[0] = x; ... a[5] = r\<^sub>z\<close> of a translation and a rotation vector.\<close>

definition arr6_fill :: "arr6 \<Rightarrow> vec3 \<Rightarrow> vec3 \<Rightarrow> arr6" where
  "arr6_fill a T r =
     (case T of (x, y, z) \<Rightarrow> case r of (rx, ry, rz) \<Rightarrow>
        arr6_set (arr6_set (arr6_set (arr6_set (arr6_set (arr6_set a 0 x) 1 y) 2 z) 3 rx) 4 ry) 5 rz)"

text \<open>The \<open>double[6]\<close> that holds a translation and a rotation vector.\<close>

definition pose6 :: "vec3 \<Rightarrow> vec3 \<Rightarrow> arr6" where
  "pose6 T r = (case T of (x, y, z) \<Rightarrow> case r of (rx, ry, rz) \<Rightarrow> Arr6 x y z rx ry rz)"

text \<open>\<open>aa.angle() * aa.axis()[i]\<close> for \<open>Eigen::AngleAxisd aa(R)\<close>.\<close>

definition rotvec :: "externals \<Rightarrow> mat3 \<Rightarrow> vec3" where
  "rotvec X R = (case AngleAxisd X R of (a, (x, y, z)) \<Rightarrow> (a * x, a * y, a * z))"

text \<open>The loop over \<open>corrections_\<close>: \<open>cor[t][0] = ...; ... cor[t][5] = ...\<close> for each one, in time order.\<close>

definition bundle_corrections :: "externals \<Rightarrow> state \<Rightarrow> (time \<times> arr6) list" where
  "bundle_corrections X s =
     fold (\<lambda>(stamp, c). smap_upd (bucket s stamp) arr6_zero
             (\<lambda>a. arr6_fill a (transform_translation c)
                    (rotvec X (toRotationMatrix X (transform_rotation c)))))
       (corrections s) []"

text \<open>\<open>height\<close>: the sum of \<open>translation.z\<close>, divided by the number of corrections when there is one.\<close>

definition average_height :: "state \<Rightarrow> real" where
  "average_height s =
     (let height = fold (\<lambda>(stamp, c) h. h + snd (snd (transform_translation c))) (corrections s) 0
      in if corrections s \<noteq> [] then height / real (length (corrections s)) else height)"

subsection \<open>Pose of every tracker in every lighthouse frame\<close>

definition principal_distance :: real where
  "principal_distance = 1.0 / (2.0 * tan (2.0944 / 2.0))"

text \<open>
  Modelled from the spec: \<open>Mean\<close> is defined in deepdive.hh, which is not among the
  sources. The spec reduces the samples of a bin by their arithmetic mean and counts a
  sensor only when it has samples on both axes, so \<open>Mean\<close> fails on no samples.
\<close>

definition Mean :: "real list \<Rightarrow> real option" where
  "Mean v = (if v = [] then None else Some (sum_list v / real (length v)))"

text \<open>
  Modelled from the spec: \<open>Correct\<close> is defined in deepdive.hh, which is not among the
  sources. The spec makes it the identity when the global toggle is off and a function of
  the lighthouse's calibration parameters and the angle pair otherwise.
\<close>

definition Correct :: "externals \<Rightarrow> real list \<Rightarrow> vec2 \<Rightarrow> bool \<Rightarrow> vec2" where
  "Correct X ps angles enabled = (if enabled then correct_model X ps angles else angles)"

text \<open>
  One pass of the loop over the sensors \<open>i\<close>: nothing when either axis has no mean
  (\<open>continue\<close>), else the sensor's position and its point in the image plane. Reading
  \<open>bundle[...][i][0]\<close> for a sensor without samples leaves an empty entry behind, which
  nothing reads later, so the bundle is not threaded through.
\<close>

definition sensor_pair ::
  "externals \<Rightarrow> state \<Rightarrow> Lighthouse \<Rightarrow> Tracker \<Rightarrow> Samples \<Rightarrow> nat \<Rightarrow> (vec3 \<times> vec2) list" where
  "sensor_pair X s lh tr sm i =
     (let by_axis = smap_get (word_of_nat i) [] sm in
      case Mean (smap_get 0 [] by_axis) of None \<Rightarrow> [] | Some a0 \<Rightarrow>
     (case Mean (smap_get 1 [] by_axis) of None \<Rightarrow> [] | Some a1 \<Rightarrow>
     (case Correct X (params lh) (a0, a1) (correct s) of (c0, c1) \<Rightarrow>
        [((sensors tr ! (i * 6 + 0), sensors tr ! (i * 6 + 1), sensors tr ! (i * 6 + 2)),
          (principal_distance * tan c0, principal_distance * tan c1))])))"

text \<open>
  The correspondences of one time bin (the sensor counter is a \<open>uint8_t\<close> running below
  \<open>NUM_SENSORS\<close>, taken to fit it), and the pose solved from them: the translation and the
  rotation vector when there are more than six and \<open>solvePnPRansac\<close> succeeds.
\<close>

definition correspondences ::
  "externals \<Rightarrow> state \<Rightarrow> Lighthouse \<Rightarrow> Tracker \<Rightarrow> Samples \<Rightarrow> (vec3 \<times> vec2) list" where
  "correspondences X s lh tr sm = concat (map (sensor_pair X s lh tr sm) [0..<NUM_SENSORS X])"

definition solve_instant ::
  "externals \<Rightarrow> state \<Rightarrow> Lighthouse \<Rightarrow> Tracker \<Rightarrow> Samples \<Rightarrow> (vec3 \<times> vec3) option" where
  "solve_instant X s lh tr sm =
     (let obj = map fst (correspondences X s lh tr sm);
          img = map snd (correspondences X s lh tr sm)
      in if length obj > 6 then
           (case solvePnPRansac X obj img principal_distance of
              None \<Rightarrow> None
            | Some (R, T) \<Rightarrow> Some (T, rotvec X (Rodrigues X R)))
         else None)"

text \<open>\<open>poses[tserial][t][lserial][0] = ...; ... [5] = ...\<close>\<close>

definition put_pose :: "string \<Rightarrow> time \<Rightarrow> string \<Rightarrow> vec3 \<times> vec3 \<Rightarrow> PoseMap \<Rightarrow> PoseMap" where
  "put_pose tserial t lserial p =
     smap_upd tserial [] (smap_upd t []
       (smap_upd lserial arr6_zero (\<lambda>a. arr6_fill a (fst p) (snd p))))"

text \<open>
  The three nested loops, innermost first: the time bins of \<open>bundle[tserial][lserial]\<close>,
  the trackers, the lighthouses.
\<close>

definition pnp_bins ::
  "externals \<Rightarrow> state \<Rightarrow> string \<Rightarrow> Lighthouse \<Rightarrow> string \<Rightarrow> Tracker \<Rightarrow> Bundle \<Rightarrow> PoseMap \<Rightarrow> PoseMap" where
  "pnp_bins X s lserial lh tserial tr bins =
     fold (\<lambda>(t, sm) poses.
             case solve_instant X s lh tr sm of
               None \<Rightarrow> poses
             | Some p \<Rightarrow> put_pose tserial t lserial p poses)
       bins"

definition pnp_trackers ::
  "externals \<Rightarrow> state \<Rightarrow> Bundles \<Rightarrow> string \<Rightarrow> Lighthouse \<Rightarrow> PoseMap \<Rightarrow> PoseMap" where
  "pnp_trackers X s bundle lserial lh =
     fold (\<lambda>(tserial, tr).
             pnp_bins X s lserial lh tserial tr (smap_get lserial [] (smap_get tserial [] bundle)))
       (trackers s)"

definition pnp_stage :: "externals \<Rightarrow> state \<Rightarrow> Bundles \<Rightarrow> PoseMap" where
  "pnp_stage X s bundle =
     fold (\<lambda>(lserial, lh). pnp_trackers X s bundle lserial lh) (lighthouses s) []"

text \<open>
  The three \<open>find\<close>s that look a pose up: \<open>poses.find(tserial)\<close>, then the time, then
  the lighthouse.
\<close>

definition pose_at :: "PoseMap \<Rightarrow> string \<Rightarrow> time \<Rightarrow> string \<Rightarrow> arr6 option" where
  "pose_at poses tserial t lserial =
     (case map_of poses tserial of None \<Rightarrow> None | Some tm \<Rightarrow>
     (case map_of tm t of None \<Rightarrow> None | Some pm \<Rightarrow> map_of pm lserial))"

subsection \<open>Slave lighthouses into the master's frame\<close>

text \<open>
  Modelled from the spec: \<open>Kabsch\<close> is defined in deepdive.hh, which is not among the
  sources. The spec has it signal failure on fewer than three correspondences and has
  the identity stand for the result then. The caller declares \<open>A\<close> without a value and reads
  it after the call whatever the flag says, so the identity is what \<open>Kabsch\<close> leaves in
  \<open>A\<close> on failure. On success \<open>A\<close> is the fit, which is not modelled further.
\<close>

definition Kabsch :: "externals \<Rightarrow> vec3 list \<Rightarrow> vec3 list \<Rightarrow> bool \<times> Affine3d" where
  "Kabsch X pti ptj =
     (if length pti < 3 then (False, Affine_Identity) else (True, kabsch_fit X pti ptj))"

text \<open>Writing \<open>A\<close> into a \<open>double[6]\<close>: translation, then the rotation vector of \<open>A.linear()\<close>.\<close>

definition write_solution :: "externals \<Rightarrow> Affine3d \<Rightarrow> arr6 \<Rightarrow> arr6" where
  "write_solution X A a = arr6_fill a (translation A) (rotvec X (linear A))"

text \<open>
  The correspondences of slave \<open>lserial\<close> with master \<open>lm\<close>: for every tracker and every
  time of \<open>poses[tserial]\<close> that has a pose in both frames, the two positions.
\<close>

definition slave_corresp :: "state \<Rightarrow> PoseMap \<Rightarrow> string \<Rightarrow> string \<Rightarrow> (vec3 \<times> vec3) list" where
  "slave_corresp s poses lm lserial =
     concat (map (\<lambda>(tserial, tr).
       concat (map (\<lambda>(t, pm).
           if map_of pm lserial = None \<or> map_of pm lm = None then []
           else [(arr6_xyz (smap_get lserial arr6_zero pm), arr6_xyz (smap_get lm arr6_zero pm))])
         (smap_get tserial [] poses)))
       (trackers s))"

text \<open>The master's branch: \<open>for (i = 0; i < 6; i++) vTl[0] = 0\<close>.\<close>

definition reset_master :: "arr6 \<Rightarrow> arr6" where
  "reset_master a = fold (\<lambda>i a. arr6_set a 0 0) [0..<6] a"

definition align_slave :: "externals \<Rightarrow> state \<Rightarrow> PoseMap \<Rightarrow> string \<Rightarrow> string \<Rightarrow> Lighthouse \<Rightarrow> Lighthouse" where
  "align_slave X s poses lm lserial l =
     (let corresp = slave_corresp s poses lm lserial;
          A = snd (Kabsch X (map fst corresp) (map snd corresp))
      in l\<lparr>vTl := write_solution X A (vTl l)\<rparr>)"

definition align_lighthouses ::
  "externals \<Rightarrow> state \<Rightarrow> PoseMap \<Rightarrow> (string \<times> Lighthouse) list" where
  "align_lighthouses X s poses =
     (case lighthouses s of
        [] \<Rightarrow> []
      | (lm, m) # slaves \<Rightarrow>
          (lm, m\<lparr>vTl := reset_master (vTl m)\<rparr>) #
          map (\<lambda>(lserial, l). (lserial, align_slave X s poses lm lserial l)) slaves)"

subsection \<open>Registration to the world frame\<close>

text \<open>The sums \<open>x, y, z\<close> and the count \<open>n\<close> over the trackers with a pose at \<open>t\<close> in frame \<open>lm\<close>.\<close>

definition fused :: "state \<Rightarrow> PoseMap \<Rightarrow> string \<Rightarrow> time \<Rightarrow> real \<times> real \<times> real \<times> nat" where
  "fused s poses lm t =
     fold (\<lambda>(tserial, tr) (x, y, z, n).
        case pose_at poses tserial t lm of
          None \<Rightarrow> (x, y, z, n)
        | Some p \<Rightarrow> (x + arr6_get p 0, y + arr6_get p 1, z + arr6_get p 2, n + 1))
       (trackers s) (0, 0, 0, 0)"

definition world_corresp ::
  "state \<Rightarrow> PoseMap \<Rightarrow> string \<Rightarrow> (time \<times> arr6) list \<Rightarrow> (vec3 \<times> vec3) list" where
  "world_corresp s poses lm cor =
     concat (map (\<lambda>(t, c).
       case fused s poses lm t of (x, y, z, n) \<Rightarrow>
         if n = length (trackers s) then
           [((x / real n, y / real n, z / real n),
             (arr6_get c 0 + offset s ! 0, arr6_get c 1 + offset s ! 1,
              arr6_get c 2 + offset s ! 2))]
         else [])
       cor)"

text \<open>The arithmetic mean of a list of points, componentwise.\<close>

definition centroid :: "vec3 list \<Rightarrow> vec3" where
  "centroid ps =
     (sum_list (map fst ps) / real (length ps),
      sum_list (map (fst \<circ> snd) ps) / real (length ps),
      sum_list (map (snd \<circ> snd) ps) / real (length ps))"

subsection \<open>The pipeline\<close>

text \<open>
  \<open>Solve\<close> returns its flag and the globals it leaves. The master's serial is
  \<open>lighthouses_.begin()->first\<close>, which the source reads without a test for an empty map.
\<close>

definition Solve :: "externals \<Rightarrow> state \<Rightarrow> bool \<times> state" where
  "Solve X s =
     (if measurements s = [] then
        (False, s\<lparr>rosout := rosout s @ [Warn_insufficient_measurements]\<rparr>)
      else
        let bundle = bundle_measurements s;
            cor = bundle_corrections X s;
            poses = pnp_stage X s bundle;
            lhs = align_lighthouses X s poses;
            corresp = world_corresp s poses (fst (hd lhs)) cor;
            A = snd (Kabsch X (map fst corresp) (map snd corresp));
            w = write_solution X A (wTv s)
        in (True,
            s\<lparr>lighthouses := lhs, wTv := w,
              rosout := rosout s @
                [Info_processing_measurements (length (measurements s)),
                 if corrections s = [] then Info_no_corrections
                 else Info_processing_corrections (length (corrections s)),
                 Info_average_height (average_height s),
                 SendTransforms w lhs,
                 WriteConfig (calfile s) w lhs]\<rparr>))"

section \<open>TriggerCallback\<close>

text \<open>
  The service handler: the response it is handed, filled in, and the value it returns
  (always \<open>true\<close>). The two \<open>if\<close>s of the source follow each other.
\<close>

definition TriggerCallback :: "externals \<Rightarrow> Response \<Rightarrow> state \<Rightarrow> bool \<times> Response \<times> state" where
  "TriggerCallback X res0 s =
     (let res1 = (if \<not> recording s
                  then res0\<lparr>success := True, message := ''Recording started.''\<rparr> else res0);
          (res2, s2) =
            (if recording s then
               let (ok, s1) = Solve X s;
                   r = res1\<lparr>success := ok\<rparr>;
                   r' = (if success r then r\<lparr>message := ''Recording stopped. Solution found.''\<rparr>
                         else r\<lparr>message := ''Recording stopped. Solution not found.''\<rparr>)
               in (r', s1\<lparr>measurements := []\<rparr>)
             else (res1, s))
      in (True, res2, s2\<lparr>recording := \<not> recording s2\<rparr>))"

text \<open>How many times \<open>Solve\<close> has been entered: each entry logs exactly one of two lines first.\<close>

definition solve_entries :: "event list \<Rightarrow> nat" where
  "solve_entries es =
     length (filter (\<lambda>e. case e of Warn_insufficient_measurements \<Rightarrow> True
                               | Info_processing_measurements n \<Rightarrow> True | _ \<Rightarrow> False) es)"

section \<open>A configured node, for the examples\<close>

text \<open>
  External functions for which the pose solver never reaches consensus, and a node with
  one tracker (32 sensors, six numbers each) and two lighthouses, idle (\<open>idle0\<close>) and
  recording (\<open>rec0\<close>). \<open>light0\<close> is a light message of six pulses: the third is at 60.01 degrees, the fourth exactly at the 60
  degree threshold, the last shorter than a microsecond; \<open>kept0\<close> is what is left of it.
\<close>

definition ext0 :: externals where
  "ext0 = \<lparr>NUM_SENSORS = 32, correct_model = (\<lambda>ps a. a),
            solvePnPRansac = (\<lambda>obj img f. None),
            Rodrigues = (\<lambda>r. ((1, 0, 0), (0, 1, 0), (0, 0, 1))),
            AngleAxisd = (\<lambda>R. (0, (1, 0, 0))),
            toRotationMatrix = (\<lambda>q. ((1, 0, 0), (0, 1, 0), (0, 0, 1))),
            kabsch_fit = (\<lambda>pti ptj. Affine_Identity)\<rparr>"

definition trk0 :: Tracker where
  "trk0 = \<lparr>bTh = arr6_zero, sensors = replicate (32 * 6) 0, tr_ready = True\<rparr>"

definition idle0 :: state where
  "idle0 = \<lparr>trackers = [(''T'', trk0)],
             lighthouses = [(''A'', \<lparr>params = [], vTl = Arr6 1 2 3 4 5 6, lh_ready = True\<rparr>),
                            (''B'', \<lparr>params = [], vTl = Arr6 6 5 4 3 2 1, lh_ready = True\<rparr>)],
             measurements = [], corrections = [],
             calfile = ''deepdive.tf2'', frame_world = ''world'', frame_body = ''body'',
             thresh_count = 4, thresh_angle = 60, thresh_duration = 1,
             recording = False, correct = False, res = 0.1, offset = [0, 0, 0],
             wTv = arr6_zero, rosout = []\<rparr>"

definition pulse0 :: "8 word \<Rightarrow> real \<Rightarrow> Pulse" where
  "pulse0 sn a = \<lparr>sensor = sn, angle = a, duration = 0.00001\<rparr>"

definition light0 :: Light where
  "light0 = \<lparr>frame_id = ''T'', lighthouse = ''A'', axis = 0,
              pulses = [pulse0 0 0.5, pulse0 1 0.5, pulse0 2 (60.01 / 57.2958),
                        pulse0 3 (60 / 57.2958), pulse0 4 0.125,
                        (pulse0 5 0.5)\<lparr>duration := 0.0000005\<rparr>]\<rparr>"

definition rec0 :: state where
  "rec0 = idle0\<lparr>recording := True\<rparr>"

definition tf0 :: TransformStamped where
  "tf0 = \<lparr>tf_frame_id = ''world'', child_frame_id = ''body'',
           transform_translation = (1, 2, 3), transform_rotation = (1, 0, 0, 0)\<rparr>"

definition kept0 :: Light where
  "kept0 = light0\<lparr>pulses := [pulse0 0 0.5, pulse0 1 0.5, pulse0 3 (60 / 57.2958),
                             pulse0 4 0.125]\<rparr>"

definition rec2 :: state where
  "rec2 = rec0\<lparr>measurements := [(1, \<lparr>light = kept0\<rparr>)], corrections := [(1, tf0)]\<rparr>"

text \<open>
  \<open>rec2\<close> with a world registration left by an earlier run, and \<open>rec0\<close> with three
  corrections, the first two in the same time bin.
\<close>

definition rec3 :: state where
  "rec3 = rec2\<lparr>wTv := Arr6 9 8 7 6 5 4\<rparr>"


text \<open>
  A node with two trackers, and a pose map in which tracker \<open>U\<close> has no pose in frame
  \<open>A\<close> at time 2.
\<close>

definition two0 :: state where
  "two0 = rec0\<lparr>trackers := [(''T'', trk0),
                              (''U'', trk0)],
                 offset := [0.5, 0, 0]\<rparr>"

definition poses0 :: PoseMap where
  "poses0 = [(''T'', [(1, [(''A'', Arr6 1 2 3 0 0 0)]), (2, [(''A'', Arr6 1 1 1 0 0 0)])]),
             (''U'', [(1, [(''A'', Arr6 3 4 5 0 0 0), (''B'', Arr6 7 7 7 0 0 0)]),
                      (2, [(''B'', Arr6 8 8 8 0 0 0)])])]"

text \<open>
  External functions whose pose solver always succeeds, and a recording with two sweeps of
  lighthouse \<open>A\<close> over sensors 0 to 6 of tracker \<open>T\<close>, one on each axis, in the
  same time bin.
\<close>

definition ext1 :: externals where
  "ext1 = ext0\<lparr>solvePnPRansac := (\<lambda>obj img f. Some ((0, 0, 0), (1, 2, 3)))\<rparr>"

definition sweep0 :: "8 word \<Rightarrow> Light" where
  "sweep0 a = \<lparr>frame_id = ''T'', lighthouse = ''A'', axis = a,
               pulses = map (\<lambda>i. pulse0 i 0.5) [0, 1, 2, 3, 4, 5, 6]\<rparr>"

definition rec7 :: state where
  "rec7 = rec0\<lparr>measurements := [(1, \<lparr>light = sweep0 0\<rparr>), (1.01, \<lparr>light = sweep0 1\<rparr>)]\<rparr>"

section \<open>Properties\<close>

lemma erase_loop_filter_aux:
  "i \<le> length ps \<Longrightarrow>
   erase_loop s i ps = filter (\<lambda>p. \<not> rejected s p) (take i ps) @ drop i ps"
proof (induction i arbitrary: ps)
  case 0
  then show ?case by simp
next
  case (Suc i)
  then have i: "i < length ps" by simp
  have tk: "take (Suc i) ps = take i ps @ [ps ! i]"
    using i by (simp add: take_Suc_conv_app_nth)
  show ?case
  proof (cases "rejected s (ps ! i)")
    case True
    have "erase_loop s (Suc i) ps = erase_loop s i (take i ps @ drop (Suc i) ps)"
      using True by simp
    also have "\<dots> = filter (\<lambda>p. \<not> rejected s p) (take i (take i ps @ drop (Suc i) ps))
                     @ drop i (take i ps @ drop (Suc i) ps)"
      using i by (intro Suc.IH) simp
    also have "\<dots> = filter (\<lambda>p. \<not> rejected s p) (take i ps) @ drop (Suc i) ps"
      using i by simp
    finally show ?thesis using True tk by simp
  next
    case False
    have "erase_loop s (Suc i) ps = erase_loop s i ps"
      using False by simp
    also have "\<dots> = filter (\<lambda>p. \<not> rejected s p) (take i ps) @ drop i ps"
      using i by (intro Suc.IH) simp
    also have "drop i ps = ps ! i # drop (Suc i) ps"
      using i by (simp add: Cons_nth_drop_Suc)
    finally show ?thesis using False tk by simp
  qed
qed

lemma uint_size: "n < 2 ^ 64 \<Longrightarrow> uint (word_of_nat n :: 64 word) = int n"
  by (simp add: uint_nat unat_of_nat)

lemma uint_int_conv: 
  assumes "0 \<le> sint (c::32 word)" shows "uint (scast c :: 64 word) = sint c"
proof -
  have "sint c < 2 ^ (LENGTH(32) - 1)" by (rule sint_lt)
  also have "\<dots> < (2::int) ^ LENGTH(64)" by (rule power_strict_increasing) simp_all
  finally have lt: "sint c < 2 ^ LENGTH(64)" .
  have "uint (scast c :: 64 word) = sint c mod 2 ^ LENGTH(64)"
    unfolding scast_eq by (rule uint_word_of_int)
  also have "\<dots> = sint c" using assms lt by (rule mod_pos_pos_trivial)
  finally show ?thesis .
qed

lemma size_lt_int_nonneg:
  assumes "0 \<le> sint c" and "n < 2 ^ 64"
  shows "size_lt_int n c \<longleftrightarrow> int n < sint c"
  unfolding size_lt_int_def word_less_def uint_size [OF assms(2)] uint_int_conv [OF assms(1)] ..

lemma erase_loop_filter:
  "erase_loop s (length ps) ps = filter (\<lambda>p. \<not> rejected s p) ps"
  using erase_loop_filter_aux [of "length ps" ps s] by simp

lemma Solve_empty:
  "measurements s = [] \<Longrightarrow>
   Solve X s = (False, s\<lparr>rosout := rosout s @ [Warn_insufficient_measurements]\<rparr>)"
  by (simp add: Solve_def)

lemma Solve_recording: "recording (snd (Solve X s)) = recording s"
  by (simp add: Solve_def Let_def)

lemma Solve_corrections: "corrections (snd (Solve X s)) = corrections s"
  by (simp add: Solve_def Let_def)

lemma Solve_measurements: "measurements (snd (Solve X s)) = measurements s"
  by (simp add: Solve_def Let_def)

lemma Solve_entries:
  "solve_entries (rosout (snd (Solve X s))) = Suc (solve_entries (rosout s))"
  by (simp add: Solve_def Let_def solve_entries_def)

lemma TriggerCallback_idle:
  "\<not> recording s \<Longrightarrow>
   TriggerCallback X res0 s =
     (True, res0\<lparr>success := True, message := ''Recording started.''\<rparr>, s\<lparr>recording := True\<rparr>)"
  by (simp add: TriggerCallback_def)

lemma TriggerCallback_recording:
  "recording s \<Longrightarrow>
   TriggerCallback X res0 s =
     (True,
      res0\<lparr>success := fst (Solve X s),
           message := (if fst (Solve X s) then ''Recording stopped. Solution found.''
                       else ''Recording stopped. Solution not found.'')\<rparr>,
      (snd (Solve X s))\<lparr>measurements := [], recording := False\<rparr>)"
  by (simp add: TriggerCallback_def Let_def split_beta Solve_recording)

lemma map_of_smap_set: "map_of (smap_set k v m) = (map_of m)(k \<mapsto> v)"
  by (induction m) (auto simp: fun_eq_iff)

subsection \<open>Session control\<close>

text \<open>
  C3: with an empty measurement buffer \<open>Solve\<close> returns \<open>false\<close> and leaves every global
  as it was (it only logs the warning); the trigger that ran it while recording answers
  with \<open>success = false\<close>, and neither a lighthouse's \<open>vTl\<close> nor \<open>wTv_\<close> has changed.
\<close>

theorem C3_empty_buffer_aborts:
  assumes "measurements s = []"
  shows "Solve X s = (False, s\<lparr>rosout := rosout s @ [Warn_insufficient_measurements]\<rparr>) \<and>
         (recording s \<longrightarrow>
            (case TriggerCallback X res0 s of (ret, rsp, s') \<Rightarrow>
               \<not> success rsp \<and> lighthouses s' = lighthouses s \<and> wTv s' = wTv s))"
  using assms by (simp add: Solve_empty TriggerCallback_recording)

theorem C3_empty_buffer_aborts_witness:
  "measurements rec0 = [] \<and> recording rec0 \<and>
   Solve ext0 rec0 = (False, rec0\<lparr>rosout := [Warn_insufficient_measurements]\<rparr>) \<and>
   \<not> success (fst (snd (TriggerCallback ext0 \<lparr>success = False, message = []\<rparr> rec0))) \<and>
   lighthouses (snd (snd (TriggerCallback ext0 \<lparr>success = False, message = []\<rparr> rec0))) = lighthouses rec0 \<and>
   wTv (snd (snd (TriggerCallback ext0 \<lparr>success = False, message = []\<rparr> rec0))) = wTv rec0"
  using C3_empty_buffer_aborts [of rec0 ext0 "\<lparr>success = False, message = []\<rparr>"]
  by (simp add: rec0_def idle0_def split_beta)

text \<open>
  C4: a trigger while idle answers "Recording started." and changes nothing but
  \<open>recording_\<close>, so \<open>Solve\<close> has not run; a trigger while recording runs \<open>Solve\<close> once,
  reports its flag, empties the measurement buffer and goes back to idle.
\<close>

theorem C4_trigger_two_states:
  "(\<not> recording s \<longrightarrow>
      TriggerCallback X res0 s =
        (True, res0\<lparr>success := True, message := ''Recording started.''\<rparr>,
         s\<lparr>recording := True\<rparr>)) \<and>
   (recording s \<longrightarrow>
      TriggerCallback X res0 s =
        (True,
         res0\<lparr>success := fst (Solve X s),
              message := (if fst (Solve X s) then ''Recording stopped. Solution found.''
                          else ''Recording stopped. Solution not found.'')\<rparr>,
         (snd (Solve X s))\<lparr>measurements := [], recording := False\<rparr>)) \<and>
   solve_entries (rosout (snd (snd (TriggerCallback X res0 s)))) =
     solve_entries (rosout s) + (if recording s then 1 else 0)"
  by (simp add: TriggerCallback_idle TriggerCallback_recording Solve_entries)

theorem C4_trigger_two_states_witness:
  "\<not> recording idle0 \<and>
   TriggerCallback ext0 \<lparr>success = False, message = []\<rparr> idle0 =
     (True, \<lparr>success = True, message = ''Recording started.''\<rparr>, rec0) \<and>
   recording rec0 \<and>
   TriggerCallback ext0 \<lparr>success = False, message = []\<rparr> rec0 =
     (True, \<lparr>success = False, message = ''Recording stopped. Solution not found.''\<rparr>,
      idle0\<lparr>rosout := [Warn_insufficient_measurements]\<rparr>) \<and>
   solve_entries (rosout (snd (snd (TriggerCallback ext0 \<lparr>success = False, message = []\<rparr> idle0)))) = 0 \<and>
   solve_entries (rosout (snd (snd (TriggerCallback ext0 \<lparr>success = False, message = []\<rparr> rec0)))) = 1"
  using C4_trigger_two_states [of idle0 ext0 "\<lparr>success = False, message = []\<rparr>"]
        C4_trigger_two_states [of rec0 ext0 "\<lparr>success = False, message = []\<rparr>"]
  by (simp add: rec0_def idle0_def Solve_empty solve_entries_def)

text \<open>
  C8: the trigger handler never changes the correction buffer; it empties the
  measurement buffer when it ends a recording.
\<close>

theorem C8_trigger_keeps_corrections:
  "corrections (snd (snd (TriggerCallback X res0 s))) = corrections s \<and>
   measurements (snd (snd (TriggerCallback X res0 s))) =
     (if recording s then [] else measurements s)"
  by (cases "recording s")
     (simp_all add: TriggerCallback_idle TriggerCallback_recording Solve_corrections)


theorem C8_trigger_keeps_corrections_witness:
  "recording rec2 \<and>
   corrections (snd (snd (TriggerCallback ext0 \<lparr>success = False, message = []\<rparr> rec2))) = [(1, tf0)] \<and>
   measurements (snd (snd (TriggerCallback ext0 \<lparr>success = False, message = []\<rparr> rec2))) = []"
  using C8_trigger_keeps_corrections [of ext0 "\<lparr>success = False, message = []\<rparr>" rec2]
  by (simp add: rec2_def rec0_def)

subsection \<open>Ingestion\<close>

text \<open>
  C5, as stated, fails: a message from a tracker the node does not know is dropped while
  recording, although all four of its surviving pulses meet the minimum count of four.
\<close>

theorem C5_unknown_tracker_counterexample:
  "recording (rec0\<lparr>trackers := []\<rparr>) \<and>
   sint (thresh_count (rec0\<lparr>trackers := []\<rparr>)) = 4 \<and>
   length (filter (\<lambda>p. \<not> rejected (rec0\<lparr>trackers := []\<rparr>) p) (pulses light0)) = 4 \<and>
   measurements (LightCallback 1 light0 (rec0\<lparr>trackers := []\<rparr>)) = []"
  by (simp add: rec0_def idle0_def light0_def pulse0_def rejected_def LightCallback_def)

lemma LightCallback_not_ready:
  assumes "map_of (trackers s) (frame_id msg) = None \<or>
           map_of (lighthouses s) (lighthouse msg) = None \<or>
           (\<exists>tr. map_of (trackers s) (frame_id msg) = Some tr \<and> \<not> tr_ready tr) \<or>
           (\<exists>lh. map_of (lighthouses s) (lighthouse msg) = Some lh \<and> \<not> lh_ready lh)"
  shows "LightCallback now msg s = s"
  using assms by (auto simp: LightCallback_def split: option.splits)

lemma LightCallback_ready:
  assumes "recording s"
    and "map_of (trackers s) (frame_id msg) = Some tr" and "tr_ready tr"
    and "map_of (lighthouses s) (lighthouse msg) = Some lh" and "lh_ready lh"
    and "0 \<le> sint (thresh_count s)" and "length (pulses msg) < 2 ^ 64"
  shows
    "LightCallback now msg s =
       (if sint (thresh_count s) \<le> int (length (filter (\<lambda>p. \<not> rejected s p) (pulses msg)))
        then s\<lparr>measurements :=
                 smap_set now \<lparr>light = msg\<lparr>pulses := filter (\<lambda>p. \<not> rejected s p) (pulses msg)\<rparr>\<rparr>
                   (measurements s)\<rparr>
        else s)"
proof -
  define kept where "kept = filter (\<lambda>p. \<not> rejected s p) (pulses msg)"
  have len: "length kept < 2 ^ 64"
    using assms(7) le_less_trans [OF length_filter_le] unfolding kept_def by blast
  have cmp: "size_lt_int (length kept) (thresh_count s) \<longleftrightarrow> int (length kept) < sint (thresh_count s)"
    using assms(6) len by (rule size_lt_int_nonneg)
  show ?thesis
    using assms(1-5) cmp
    by (simp add: LightCallback_def Let_def erase_loop_filter kept_def [symmetric] not_less)
qed

text \<open>
  C5, amended: while recording, the pulses kept of a message are exactly those with angle
  at most \<open>thresh_angle_ / 57.2958\<close> and duration at least \<open>thresh_duration_ / 1e6\<close>.
  A message whose tracker or lighthouse is unknown or not ready is dropped whatever its
  pulses: nothing changes. A message from a tracker and a lighthouse that are both known
  and ready, with a minimum count that is not negative, is stored under the current time,
  with the pulses kept, exactly when their number is at least the minimum count;
  otherwise nothing changes.
\<close>

theorem C5_light_filter:
  assumes "recording s"
  shows
    "let kept = filter (\<lambda>p. \<not> (angle p > thresh_angle s / 57.2958 \<or>
                                   duration p < thresh_duration s / 1000000)) (pulses msg)
     in erase_loop s (length (pulses msg)) (pulses msg) = kept \<and>
        (map_of (trackers s) (frame_id msg) = None \<or>
         map_of (lighthouses s) (lighthouse msg) = None \<or>
         (\<exists>tr. map_of (trackers s) (frame_id msg) = Some tr \<and> \<not> tr_ready tr) \<or>
         (\<exists>lh. map_of (lighthouses s) (lighthouse msg) = Some lh \<and> \<not> lh_ready lh)
         \<longrightarrow> LightCallback now msg s = s) \<and>
        (\<forall>tr lh.
           map_of (trackers s) (frame_id msg) = Some tr \<and> tr_ready tr \<and>
           map_of (lighthouses s) (lighthouse msg) = Some lh \<and> lh_ready lh \<and>
           0 \<le> sint (thresh_count s) \<and> length (pulses msg) < 2 ^ 64
           \<longrightarrow>
           LightCallback now msg s =
             (if sint (thresh_count s) \<le> int (length kept)
              then s\<lparr>measurements :=
                       smap_set now \<lparr>light = msg\<lparr>pulses := kept\<rparr>\<rparr> (measurements s)\<rparr>
              else s) \<and>
           map_of (measurements (LightCallback now msg s)) now =
             (if sint (thresh_count s) \<le> int (length kept)
              then Some \<lparr>light = msg\<lparr>pulses := kept\<rparr>\<rparr>
              else map_of (measurements s) now))"
proof -
  let ?kept = "filter (\<lambda>p. \<not> rejected s p) (pulses msg)"
  have k: "filter (\<lambda>p. \<not> (angle p > thresh_angle s / 57.2958 \<or>
                 duration p < thresh_duration s / 1000000)) (pulses msg) = ?kept"
    by (simp add: rejected_def)
  have e: "erase_loop s (length (pulses msg)) (pulses msg) = ?kept"
    by (rule erase_loop_filter)
  have d: "map_of (trackers s) (frame_id msg) = None \<or>
         map_of (lighthouses s) (lighthouse msg) = None \<or>
         (\<exists>tr. map_of (trackers s) (frame_id msg) = Some tr \<and> \<not> tr_ready tr) \<or>
         (\<exists>lh. map_of (lighthouses s) (lighthouse msg) = Some lh \<and> \<not> lh_ready lh)
         \<longrightarrow> LightCallback now msg s = s"
    using LightCallback_not_ready [of s msg now] by blast
  have r: "LightCallback now msg s =
             (if sint (thresh_count s) \<le> int (length ?kept)
              then s\<lparr>measurements :=
                       smap_set now \<lparr>light = msg\<lparr>pulses := ?kept\<rparr>\<rparr> (measurements s)\<rparr>
              else s) \<and>
           map_of (measurements (LightCallback now msg s)) now =
             (if sint (thresh_count s) \<le> int (length ?kept)
              then Some \<lparr>light = msg\<lparr>pulses := ?kept\<rparr>\<rparr>
              else map_of (measurements s) now)"
    if "map_of (trackers s) (frame_id msg) = Some tr" "tr_ready tr"
       "map_of (lighthouses s) (lighthouse msg) = Some lh" "lh_ready lh"
       "0 \<le> sint (thresh_count s)" "length (pulses msg) < 2 ^ 64" for tr lh
  proof -
    note cb = LightCallback_ready [OF assms that, of now]
    show ?thesis
      by (rule conjI, rule cb, subst cb) (simp add: map_of_smap_set)
  qed
  show ?thesis
    unfolding Let_def k using e d r by blast
qed

theorem C5_light_filter_witness:
  "recording rec0 \<and> map_of (trackers rec0) (frame_id light0) = Some trk0 \<and> tr_ready trk0 \<and>
   map_of (lighthouses rec0) (lighthouse light0) =
      Some \<lparr>params = [], vTl = Arr6 1 2 3 4 5 6, lh_ready = True\<rparr> \<and>
   sint (thresh_count rec0) = 4 \<and>
   erase_loop rec0 (length (pulses light0)) (pulses light0) = pulses kept0 \<and>
   LightCallback 1 light0 rec0 = rec0\<lparr>measurements := [(1, \<lparr>light = kept0\<rparr>)]\<rparr> \<and>
   LightCallback 1 light0 (rec0\<lparr>thresh_count := 5\<rparr>) = rec0\<lparr>thresh_count := 5\<rparr> \<and>
   map_of (lighthouses rec0) ''Z'' = None \<and>
   LightCallback 1 (light0\<lparr>lighthouse := ''Z''\<rparr>) rec0 = rec0 \<and>
   map_of (trackers (rec0\<lparr>trackers := [(''T'', trk0\<lparr>tr_ready := False\<rparr>)]\<rparr>)) (frame_id light0) =
      Some (trk0\<lparr>tr_ready := False\<rparr>) \<and>
   LightCallback 1 light0 (rec0\<lparr>trackers := [(''T'', trk0\<lparr>tr_ready := False\<rparr>)]\<rparr>) =
      rec0\<lparr>trackers := [(''T'', trk0\<lparr>tr_ready := False\<rparr>)]\<rparr>"
proof -
  have r: "recording rec0" "recording (rec0\<lparr>thresh_count := 5\<rparr>)"
          "recording (rec0\<lparr>trackers := [(''T'', trk0\<lparr>tr_ready := False\<rparr>)]\<rparr>)"
    by (simp_all add: rec0_def)
  show ?thesis
    using C5_light_filter [OF r(1), of light0 1]
          C5_light_filter [OF r(2), of light0 1]
          C5_light_filter [OF r(1), of "light0\<lparr>lighthouse := ''Z''\<rparr>" 1]
          C5_light_filter [OF r(3), of light0 1]
    by (simp add: rec0_def idle0_def trk0_def light0_def kept0_def pulse0_def Let_def rejected_def)
qed

text \<open>
  The count test converts the \<open>int\<close> to \<open>size_t\<close>: with a minimum count of \<open>-1\<close> a
  message is dropped although the number of its pulses, zero, is not below it.
\<close>

lemma negative_count_drops:
  "thresh_count s = - 1 \<Longrightarrow> recording s \<Longrightarrow> pulses msg = [] \<Longrightarrow>
   LightCallback now msg s = s"
  by (simp add: LightCallback_def size_lt_int_def word_gt_0 split: option.splits)

subsection \<open>The transforms \<open>Solve\<close> writes\<close>

lemma arr6_fill_eq: "arr6_fill a (x, y, z) (rx, ry, rz) = Arr6 x y z rx ry rz"
  by (cases a) (simp add: arr6_fill_def)

lemma reset_master_eq: "reset_master (Arr6 a b c d e f) = Arr6 0 b c d e f"
  by (simp add: reset_master_def upt_rec)

lemma write_solution_eq:
  "write_solution X A a =
     (case translation A of (x, y, z) \<Rightarrow> case rotvec X (linear A) of (rx, ry, rz) \<Rightarrow>
        Arr6 x y z rx ry rz)"
  by (cases a) (simp add: write_solution_def arr6_fill_def split: prod.splits)

lemma write_solution_identity:
  "fst (AngleAxisd X (linear Affine_Identity)) = 0 \<Longrightarrow>
   write_solution X Affine_Identity a = arr6_zero"
  by (cases "AngleAxisd X (linear Affine_Identity)")
     (simp add: write_solution_eq rotvec_def arr6_zero_def Affine_Identity_def split: prod.splits)

lemma Kabsch_fails: "\<not> fst (Kabsch X pti ptj) \<Longrightarrow> snd (Kabsch X pti ptj) = Affine_Identity"
  by (simp add: Kabsch_def split: if_splits)

lemma Kabsch_few: "length pti < 3 \<Longrightarrow> \<not> fst (Kabsch X pti ptj)"
  by (simp add: Kabsch_def)

lemma Solve_lighthouses:
  "measurements s \<noteq> [] \<Longrightarrow>
   lighthouses (snd (Solve X s)) = align_lighthouses X s (pnp_stage X s (bundle_measurements s))"
  by (simp add: Solve_def Let_def)

lemma align_lighthouses_Cons:
  "lighthouses s = (lm, m) # slaves \<Longrightarrow>
   align_lighthouses X s poses =
     (lm, m\<lparr>vTl := reset_master (vTl m)\<rparr>) #
     map (\<lambda>(lserial, l). (lserial, align_slave X s poses lm lserial l)) slaves"
  by (simp add: align_lighthouses_def)

lemma Solve_wTv:
  "measurements s \<noteq> [] \<Longrightarrow> lighthouses s \<noteq> [] \<Longrightarrow>
   wTv (snd (Solve X s)) =
     write_solution X
       (snd (Kabsch X
          (map fst (world_corresp s (pnp_stage X s (bundle_measurements s))
                      (fst (hd (lighthouses s))) (bundle_corrections X s)))
          (map snd (world_corresp s (pnp_stage X s (bundle_measurements s))
                      (fst (hd (lighthouses s))) (bundle_corrections X s)))))
       (wTv s)"
  by (cases "lighthouses s") (auto simp add: Solve_def Let_def align_lighthouses_def)

lemma arr6_fill_pose6: "arr6_fill a T r = pose6 T r"
  by (cases T; cases r) (simp add: arr6_fill_eq pose6_def)

lemma map_of_smap_upd: "map_of (smap_upd k d f m) = (map_of m)(k \<mapsto> f (smap_get k d m))"
  by (simp add: smap_upd_def map_of_smap_set)

lemma solve_instant_no_consensus:
  "(\<And>obj img f. solvePnPRansac X obj img f = None) \<Longrightarrow> solve_instant X s lh tr sm = None"
  by (simp add: solve_instant_def Let_def)

lemma pnp_bins_no_consensus:
  "(\<And>obj img f. solvePnPRansac X obj img f = None) \<Longrightarrow>
   pnp_bins X s lserial lh tserial tr bins poses = poses"
  unfolding pnp_bins_def
  by (induction bins arbitrary: poses) (auto simp: solve_instant_no_consensus)

lemma pnp_trackers_no_consensus:
  assumes "\<And>obj img f. solvePnPRansac X obj img f = None"
  shows "pnp_trackers X s bundle lserial lh poses = poses"
proof -
  have "fold (\<lambda>(tserial, tr).
             pnp_bins X s lserial lh tserial tr (smap_get lserial [] (smap_get tserial [] bundle)))
          ts poses = poses" for ts
    by (induction ts arbitrary: poses) (auto simp: pnp_bins_no_consensus [OF assms])
  then show ?thesis by (simp add: pnp_trackers_def)
qed

lemma pnp_stage_no_consensus:
  assumes "\<And>obj img f. solvePnPRansac X obj img f = None"
  shows "pnp_stage X s bundle = []"
proof -
  have "fold (\<lambda>(lserial, lh). pnp_trackers X s bundle lserial lh) ls poses = poses" for ls poses
    by (induction ls arbitrary: poses) (auto simp: pnp_trackers_no_consensus [OF assms])
  then show ?thesis by (simp add: pnp_stage_def)
qed

lemma pnp_stage_ext0: "pnp_stage ext0 s bundle = []"
  by (rule pnp_stage_no_consensus) (simp add: ext0_def)

lemma slave_corresp_no_poses: "slave_corresp s [] lm lserial = []"
  by (simp add: slave_corresp_def smap_get_def)

lemma fused_no_poses: "fused s [] lm t = (0, 0, 0, 0)"
proof -
  have "fold (\<lambda>(tserial, tr) (x, y, z, n).
        case pose_at [] tserial t lm of
          None \<Rightarrow> (x, y, z, n)
        | Some p \<Rightarrow> (x + arr6_get p 0, y + arr6_get p 1, z + arr6_get p 2, n + 1)) ts acc = acc"
    for ts and acc :: "real \<times> real \<times> real \<times> nat"
    by (induction ts arbitrary: acc) (auto simp: pose_at_def)
  then show ?thesis by (simp add: fused_def)
qed

text \<open>
  C1: the reference lighthouse is the first of the map. Its branch of the loop assigns
  \<open>vTl[0] = 0\<close> six times, so after \<open>Solve\<close> its \<open>vTl\<close> is what it was with the first
  component zero: the other five keep the configured guess, and the transform is the
  identity only if they were zero already.
\<close>

theorem C1_master_first_component_only:
  assumes "measurements s \<noteq> []" and "lighthouses s = (lm, m) # slaves"
  shows "hd (lighthouses (snd (Solve X s))) = (lm, m\<lparr>vTl := arr6_set (vTl m) 0 0\<rparr>)"
proof -
  have "reset_master (vTl m) = arr6_set (vTl m) 0 0"
    by (cases "vTl m") (simp add: reset_master_eq)
  then show ?thesis
    using assms by (simp add: Solve_lighthouses align_lighthouses_Cons)
qed

theorem C1_master_first_component_only_witness:
  "measurements rec2 \<noteq> [] \<and>
   hd (lighthouses (snd (Solve ext0 rec2))) =
     (''A'', \<lparr>params = [], vTl = Arr6 0 2 3 4 5 6, lh_ready = True\<rparr>) \<and>
   vTl (snd (hd (lighthouses (snd (Solve ext0 rec2))))) \<noteq> arr6_zero"
  using C1_master_first_component_only [of rec2 "''A''"
      "\<lparr>params = [], vTl = Arr6 1 2 3 4 5 6, lh_ready = True\<rparr>"
      "[(''B'', \<lparr>params = [], vTl = Arr6 6 5 4 3 2 1, lh_ready = True\<rparr>)]" ext0]
  by (simp add: rec2_def rec0_def idle0_def arr6_zero_def)

text \<open>
  C2: when \<open>Kabsch\<close> fails for a slave lighthouse (in particular on fewer than three
  correspondences) its \<open>vTl\<close> becomes the identity, all six components zero, and when it
  fails for the world registration (in particular on no correspondence) \<open>wTv_\<close> does.
  The identity rotation is written as the rotation vector that \<open>Eigen::AngleAxisd\<close> gives
  for it, whose angle is zero.
\<close>

theorem C2_identity_when_alignment_fails:
  assumes "measurements s \<noteq> []" and "lighthouses s = (lm, m) # slaves"
    and "fst (AngleAxisd X (linear Affine_Identity)) = 0"
  shows
    "(\<forall>i<length slaves.
        case (slaves ! i, tl (lighthouses (snd (Solve X s))) ! i) of ((lserial, l), (lserial', l')) \<Rightarrow>
          let cs = slave_corresp s (pnp_stage X s (bundle_measurements s)) lm lserial in
          lserial' = lserial \<and>
          (\<not> fst (Kabsch X (map fst cs) (map snd cs)) \<longrightarrow> vTl l' = arr6_zero) \<and>
          (length cs < 3 \<longrightarrow> vTl l' = arr6_zero)) \<and>
     (let ws = world_corresp s (pnp_stage X s (bundle_measurements s)) lm (bundle_corrections X s) in
        (\<not> fst (Kabsch X (map fst ws) (map snd ws)) \<longrightarrow> wTv (snd (Solve X s)) = arr6_zero) \<and>
        (ws = [] \<longrightarrow> wTv (snd (Solve X s)) = arr6_zero))"
proof -
  let ?poses = "pnp_stage X s (bundle_measurements s)"
  have id: "write_solution X Affine_Identity a = arr6_zero" for a
    using assms(3) by (rule write_solution_identity)
  have fail: "\<not> fst (Kabsch X pti ptj) \<Longrightarrow> write_solution X (snd (Kabsch X pti ptj)) a = arr6_zero"
    for pti ptj a
    by (simp add: Kabsch_fails id)
  have few: "length cs < 3 \<Longrightarrow> \<not> fst (Kabsch X (map fst cs) (map snd cs))"
    for cs :: "(vec3 \<times> vec3) list"
    by (simp add: Kabsch_few)
  have lhs: "tl (lighthouses (snd (Solve X s))) =
      map (\<lambda>(lserial, l). (lserial, align_slave X s ?poses lm lserial l)) slaves"
    using assms(1,2) by (simp add: Solve_lighthouses align_lighthouses_Cons)
  have slave: "case (slaves ! i, tl (lighthouses (snd (Solve X s))) ! i) of
      ((lserial, l), (lserial', l')) \<Rightarrow>
          let cs = slave_corresp s ?poses lm lserial in
          lserial' = lserial \<and>
          (\<not> fst (Kabsch X (map fst cs) (map snd cs)) \<longrightarrow> vTl l' = arr6_zero) \<and>
          (length cs < 3 \<longrightarrow> vTl l' = arr6_zero)" if "i < length slaves" for i
  proof (cases "slaves ! i")
    case (Pair lserial l)
    then show ?thesis
      using that few [of "slave_corresp s ?poses lm lserial"]
      by (simp add: lhs Let_def align_slave_def fail)
  qed
  have w: "wTv (snd (Solve X s)) =
     write_solution X
       (snd (Kabsch X (map fst (world_corresp s ?poses lm (bundle_corrections X s)))
                      (map snd (world_corresp s ?poses lm (bundle_corrections X s)))))
       (wTv s)"
    using assms(1,2) by (simp add: Solve_wTv)
  have world: "let ws = world_corresp s ?poses lm (bundle_corrections X s) in
        (\<not> fst (Kabsch X (map fst ws) (map snd ws)) \<longrightarrow> wTv (snd (Solve X s)) = arr6_zero) \<and>
        (ws = [] \<longrightarrow> wTv (snd (Solve X s)) = arr6_zero)"
    unfolding Let_def w using few [of "[]"] by (auto simp: fail)
  from slave world show ?thesis by blast
qed

theorem C2_identity_when_alignment_fails_witness:
  "measurements rec3 \<noteq> [] \<and>
   lighthouses rec3 = [(''A'', \<lparr>params = [], vTl = Arr6 1 2 3 4 5 6, lh_ready = True\<rparr>),
                       (''B'', \<lparr>params = [], vTl = Arr6 6 5 4 3 2 1, lh_ready = True\<rparr>)] \<and>
   fst (AngleAxisd ext0 (linear Affine_Identity)) = 0 \<and>
   wTv rec3 = Arr6 9 8 7 6 5 4 \<and>
   slave_corresp rec3 (pnp_stage ext0 rec3 (bundle_measurements rec3)) ''A'' ''B'' = [] \<and>
   world_corresp rec3 (pnp_stage ext0 rec3 (bundle_measurements rec3)) ''A''
     (bundle_corrections ext0 rec3) = [] \<and>
   fst (tl (lighthouses (snd (Solve ext0 rec3))) ! 0) = ''B'' \<and>
   vTl (snd (tl (lighthouses (snd (Solve ext0 rec3))) ! 0)) = Arr6 0 0 0 0 0 0 \<and>
   wTv (snd (Solve ext0 rec3)) = Arr6 0 0 0 0 0 0"
proof -
  have m: "measurements rec3 \<noteq> []"
    by (simp add: rec3_def rec2_def)
  have l: "lighthouses rec3 =
      (''A'', \<lparr>params = [], vTl = Arr6 1 2 3 4 5 6, lh_ready = True\<rparr>) #
      [(''B'', \<lparr>params = [], vTl = Arr6 6 5 4 3 2 1, lh_ready = True\<rparr>)]"
    by (simp add: rec3_def rec2_def rec0_def idle0_def)
  have e: "fst (AngleAxisd ext0 (linear Affine_Identity)) = 0"
    by (simp add: ext0_def)
  have v: "wTv rec3 = Arr6 9 8 7 6 5 4"
    by (simp add: rec3_def)
  have c: "bundle_corrections ext0 rec3 = [(1, Arr6 1 2 3 0 0 0)]"
    by (simp add: bundle_corrections_def rec3_def rec2_def rec0_def idle0_def tf0_def bucket_def
        c_round_def smap_upd_def smap_get_def arr6_fill_def arr6_zero_def rotvec_def ext0_def)
  have w: "world_corresp rec3 [] ''A'' [(1, Arr6 1 2 3 0 0 0)] = []"
    by (simp add: world_corresp_def fused_no_poses rec3_def rec2_def rec0_def idle0_def)
  show ?thesis
    using C2_identity_when_alignment_fails [OF m l e] m l e v c w
    by (simp add: pnp_stage_ext0 slave_corresp_no_poses arr6_zero_def Let_def split_beta)
qed

subsection \<open>Corrections in a time bin\<close>





subsection \<open>Running the pipeline again\<close>

lemma Solve_trackers: "trackers (snd (Solve X s)) = trackers s"
  by (simp add: Solve_def Let_def)

lemma Solve_res: "res (snd (Solve X s)) = res s"
  by (simp add: Solve_def Let_def)

lemma Solve_correct: "correct (snd (Solve X s)) = correct s"
  by (simp add: Solve_def Let_def)

lemma Solve_offset: "offset (snd (Solve X s)) = offset s"
  by (simp add: Solve_def Let_def)

lemma bundle_measurements_cong:
  "measurements s' = measurements s \<Longrightarrow> res s' = res s \<Longrightarrow>
   bundle_measurements s' = bundle_measurements s"
  by (simp add: bundle_measurements_def bucket_def)

lemma bundle_corrections_cong:
  "corrections s' = corrections s \<Longrightarrow> res s' = res s \<Longrightarrow>
   bundle_corrections X s' = bundle_corrections X s"
  by (simp add: bundle_corrections_def bucket_def)

lemma sensor_pair_cong:
  "correct s' = correct s \<Longrightarrow> params lh' = params lh \<Longrightarrow>
   sensor_pair X s' lh' tr sm = sensor_pair X s lh tr sm"
  by (rule ext) (simp add: sensor_pair_def Let_def cong: option.case_cong)

lemma solve_instant_cong:
  "correct s' = correct s \<Longrightarrow> params lh' = params lh \<Longrightarrow>
   solve_instant X s' lh' tr sm = solve_instant X s lh tr sm"
  by (simp add: solve_instant_def correspondences_def sensor_pair_cong [of s' s lh' lh])

lemma pnp_bins_cong:
  "correct s' = correct s \<Longrightarrow> params lh' = params lh \<Longrightarrow>
   pnp_bins X s' lserial lh' tserial tr bins = pnp_bins X s lserial lh tserial tr bins"
  by (simp add: pnp_bins_def solve_instant_cong [of s' s lh' lh])

lemma pnp_trackers_cong:
  "correct s' = correct s \<Longrightarrow> trackers s' = trackers s \<Longrightarrow> params lh' = params lh \<Longrightarrow>
   pnp_trackers X s' bundle lserial lh' = pnp_trackers X s bundle lserial lh"
  by (simp add: pnp_trackers_def pnp_bins_cong [of s' s lh' lh])

lemma pnp_stage_cong:
  assumes "correct s' = correct s" and "trackers s' = trackers s"
    and "list_all2 (\<lambda>(k, l) (k', l'). k' = k \<and> params l' = params l) (lighthouses s) (lighthouses s')"
  shows "pnp_stage X s' bundle = pnp_stage X s bundle"
proof -
  have "fold (\<lambda>(lserial, lh). pnp_trackers X s' bundle lserial lh) ls' poses =
        fold (\<lambda>(lserial, lh). pnp_trackers X s bundle lserial lh) ls poses"
    if "list_all2 (\<lambda>(k, l) (k', l'). k' = k \<and> params l' = params l) ls ls'" for ls ls' poses
    using that
  proof (induction ls ls' arbitrary: poses rule: list_all2_induct)
    case Nil
    then show ?case by simp
  next
    case (Cons x xs y ys)
    obtain k l where x: "x = (k, l)" by (cases x)
    obtain k' l' where y: "y = (k', l')" by (cases y)
    from Cons.hyps(1) have "k' = k" and "params l' = params l"
      by (simp_all add: x y)
    then show ?case
      using assms(1,2) Cons.IH by (simp add: x y pnp_trackers_cong [of s' s l' l])
  qed
  from this [OF assms(3)] show ?thesis by (simp add: pnp_stage_def)
qed

lemma slave_corresp_cong:
  "trackers s' = trackers s \<Longrightarrow> slave_corresp s' poses lm lserial = slave_corresp s poses lm lserial"
  by (simp add: slave_corresp_def)

lemma world_corresp_cong:
  "trackers s' = trackers s \<Longrightarrow> offset s' = offset s \<Longrightarrow>
   world_corresp s' poses lm cor = world_corresp s poses lm cor"
  by (simp add: world_corresp_def fused_def cong: if_cong prod.case_cong)

lemma reset_master_twice: "reset_master (reset_master a) = reset_master a"
  by (cases a) (simp add: reset_master_eq)

lemma align_lighthouses_params:
  "list_all2 (\<lambda>(k, l) (k', l'). k' = k \<and> params l' = params l)
     (lighthouses s) (align_lighthouses X s poses)"
proof (cases "lighthouses s")
  case Nil
  then show ?thesis by (simp add: align_lighthouses_def)
next
  case (Cons a slaves)
  obtain lm m where a: "a = (lm, m)" by (cases a)
  have "list_all2 (\<lambda>(k, l) (k', l'). k' = k \<and> params l' = params l) slaves
          (map (\<lambda>(lserial, l). (lserial, align_slave X s poses lm lserial l)) slaves)"
    by (induction slaves) (auto simp: align_slave_def Let_def)
  then show ?thesis
    using Cons a by (simp add: align_lighthouses_Cons)
qed

lemma align_lighthouses_again:
  assumes "trackers s' = trackers s" and "lighthouses s' = align_lighthouses X s poses"
  shows "align_lighthouses X s' poses = align_lighthouses X s poses"
proof (cases "lighthouses s")
  case Nil
  then show ?thesis using assms by (simp add: align_lighthouses_def)
next
  case (Cons a slaves)
  obtain lm m where a: "a = (lm, m)" by (cases a)
  have l': "lighthouses s' = (lm, m\<lparr>vTl := reset_master (vTl m)\<rparr>) #
     map (\<lambda>(lserial, l). (lserial, align_slave X s poses lm lserial l)) slaves"
    using Cons a assms(2) by (simp add: align_lighthouses_Cons)
  have "map (\<lambda>(lserial, l). (lserial, align_slave X s' poses lm lserial l))
          (map (\<lambda>(lserial, l). (lserial, align_slave X s poses lm lserial l)) slaves) =
        map (\<lambda>(lserial, l). (lserial, align_slave X s poses lm lserial l)) slaves"
    using assms(1)
    by (induction slaves)
       (auto simp: align_slave_def Let_def write_solution_eq slave_corresp_cong [of s' s])
  then show ?thesis
    using Cons a by (simp add: align_lighthouses_Cons [OF l'] align_lighthouses_Cons reset_master_twice)
qed

text \<open>
  C9: a second run of \<open>Solve\<close> on the state the first run left (same measurement and
  correction buffers) leaves every lighthouse's \<open>vTl\<close> and \<open>wTv_\<close> as the first run
  wrote them. The master's serial is read from the first lighthouse, so there is one
  whenever there is a measurement.
\<close>

theorem C9_solve_twice:
  assumes "measurements s \<noteq> [] \<longrightarrow> lighthouses s \<noteq> []"
  shows "lighthouses (snd (Solve X (snd (Solve X s)))) = lighthouses (snd (Solve X s)) \<and>
         wTv (snd (Solve X (snd (Solve X s)))) = wTv (snd (Solve X s))"
proof (cases "measurements s = []")
  case True
  then show ?thesis by (simp add: Solve_empty)
next
  case False
  let ?s1 = "snd (Solve X s)"
  have ne: "lighthouses s \<noteq> []" using assms False by simp
  have m1: "measurements ?s1 \<noteq> []" using False by (simp add: Solve_measurements)
  have b: "bundle_measurements ?s1 = bundle_measurements s"
    by (rule bundle_measurements_cong) (simp_all add: Solve_measurements Solve_res)
  have c: "bundle_corrections X ?s1 = bundle_corrections X s"
    by (rule bundle_corrections_cong) (simp_all add: Solve_corrections Solve_res)
  let ?poses = "pnp_stage X s (bundle_measurements s)"
  have l1: "lighthouses ?s1 = align_lighthouses X s ?poses"
    using False by (rule Solve_lighthouses)
  have p: "pnp_stage X ?s1 (bundle_measurements s) = ?poses"
    by (rule pnp_stage_cong) (simp_all add: Solve_correct Solve_trackers l1 align_lighthouses_params)
  have ne1: "lighthouses ?s1 \<noteq> []"
    using ne by (cases "lighthouses s") (auto simp: l1 align_lighthouses_def)
  have hd1: "fst (hd (lighthouses ?s1)) = fst (hd (lighthouses s))"
    using ne by (cases "lighthouses s") (auto simp: l1 align_lighthouses_def)
  have "lighthouses (snd (Solve X ?s1)) = align_lighthouses X ?s1 ?poses"
    using m1 by (simp add: Solve_lighthouses b p)
  also have "\<dots> = align_lighthouses X s ?poses"
    by (rule align_lighthouses_again) (simp_all add: Solve_trackers l1)
  finally have L: "lighthouses (snd (Solve X ?s1)) = lighthouses ?s1"
    by (simp add: l1)
  have W: "wTv (snd (Solve X ?s1)) = wTv ?s1"
    using False ne
    by (simp add: Solve_wTv [OF m1 ne1] Solve_wTv b c p hd1 write_solution_eq
          world_corresp_cong [of ?s1 s] Solve_trackers Solve_offset)
  from L W show ?thesis by simp
qed

theorem C9_solve_twice_witness:
  "measurements rec3 \<noteq> [] \<and> lighthouses rec3 \<noteq> [] \<and>
   lighthouses (snd (Solve ext0 (snd (Solve ext0 rec3)))) = lighthouses (snd (Solve ext0 rec3)) \<and>
   wTv (snd (Solve ext0 (snd (Solve ext0 rec3)))) = wTv (snd (Solve ext0 rec3))"
  using C9_solve_twice [of rec3 ext0]
  by (simp add: rec3_def rec2_def rec0_def idle0_def)

subsection \<open>World registration\<close>

lemma fused_fold:
  "fold (\<lambda>(tserial, tr) (x, y, z, n).
        case pose_at poses tserial t lm of
          None \<Rightarrow> (x, y, z, n)
        | Some p \<Rightarrow> (x + arr6_get p 0, y + arr6_get p 1, z + arr6_get p 2, n + 1))
     ts (x0, y0, z0, n0) =
   (let ps = List.map_filter (\<lambda>(tserial, tr). pose_at poses tserial t lm) ts in
     (x0 + sum_list (map (\<lambda>p. arr6_get p 0) ps), y0 + sum_list (map (\<lambda>p. arr6_get p 1) ps),
      z0 + sum_list (map (\<lambda>p. arr6_get p 2) ps), n0 + length ps))"
  by (induction ts arbitrary: x0 y0 z0 n0)
     (auto simp: List.map_filter_simps Let_def split: option.splits)

lemma length_map_filter_le: "length (List.map_filter f xs) \<le> length xs"
  by (induction xs) (auto simp: List.map_filter_simps split: option.splits)

lemma length_map_filter_all:
  "length (List.map_filter f xs) = length xs \<longleftrightarrow> (\<forall>x\<in>set xs. f x \<noteq> None)"
proof (induction xs)
  case Nil
  then show ?case by (simp add: List.map_filter_simps)
next
  case (Cons x xs)
  show ?case
  proof (cases "f x")
    case None
    then show ?thesis
      using length_map_filter_le [of f xs] by (simp add: List.map_filter_simps)
  next
    case (Some y)
    then show ?thesis using Cons by (simp add: List.map_filter_simps)
  qed
qed

lemma map_filter_all:
  "\<forall>x\<in>set xs. f x \<noteq> None \<Longrightarrow> List.map_filter f xs = map (\<lambda>x. the (f x)) xs"
  by (induction xs) (auto simp: List.map_filter_simps)

text \<open>
  C7: in the world registration a correction bin contributes a correspondence exactly
  when every tracker of \<open>trackers_\<close> has a pose in the master's frame at the bin's time;
  the pair is then the mean of these trackers' positions and the correction's translation
  plus \<open>offset_\<close>. Bins where a tracker has no such pose contribute nothing. (There is
  at least one tracker, and \<open>offset_\<close> has its three components.)
\<close>

theorem C7_world_correspondences:
  assumes "trackers s \<noteq> []" and "length (offset s) = 3"
  shows "world_corresp s poses lm cor =
     concat (map (\<lambda>(t, c).
        if \<forall>(tserial, tr)\<in>set (trackers s). pose_at poses tserial t lm \<noteq> None then
          [(centroid (map (\<lambda>(tserial, tr). arr6_xyz (the (pose_at poses tserial t lm))) (trackers s)),
            (arr6_get c 0 + offset s ! 0, arr6_get c 1 + offset s ! 1, arr6_get c 2 + offset s ! 2))]
        else [])
       cor)"
proof -
  have one: "(case fused s poses lm t of (x, y, z, n) \<Rightarrow>
         if n = length (trackers s) then
           [((x / real n, y / real n, z / real n),
             (arr6_get c 0 + offset s ! 0, arr6_get c 1 + offset s ! 1,
              arr6_get c 2 + offset s ! 2))]
         else []) =
      (if \<forall>(tserial, tr)\<in>set (trackers s). pose_at poses tserial t lm \<noteq> None then
          [(centroid (map (\<lambda>(tserial, tr). arr6_xyz (the (pose_at poses tserial t lm))) (trackers s)),
            (arr6_get c 0 + offset s ! 0, arr6_get c 1 + offset s ! 1, arr6_get c 2 + offset s ! 2))]
        else [])" for t c
  proof -
    let ?f = "\<lambda>(tserial, tr). pose_at poses tserial t lm"
    let ?ps = "List.map_filter ?f (trackers s)"
    have f: "fused s poses lm t =
        (sum_list (map (\<lambda>p. arr6_get p 0) ?ps), sum_list (map (\<lambda>p. arr6_get p 1) ?ps),
         sum_list (map (\<lambda>p. arr6_get p 2) ?ps), length ?ps)"
      by (simp add: fused_def fused_fold Let_def)
    have all: "length ?ps = length (trackers s) \<longleftrightarrow>
        (\<forall>(tserial, tr)\<in>set (trackers s). pose_at poses tserial t lm \<noteq> None)"
      by (simp add: length_map_filter_all case_prod_unfold)
    show ?thesis
    proof (cases "\<forall>(tserial, tr)\<in>set (trackers s). pose_at poses tserial t lm \<noteq> None")
      case True
      then have ps: "?ps = map (\<lambda>x. the (?f x)) (trackers s)"
        by (intro map_filter_all) (simp add: case_prod_unfold)
      have f2: "fused s poses lm t =
        (sum_list (map (\<lambda>x. arr6_get (the (?f x)) 0) (trackers s)),
         sum_list (map (\<lambda>x. arr6_get (the (?f x)) 1) (trackers s)),
         sum_list (map (\<lambda>x. arr6_get (the (?f x)) 2) (trackers s)),
         length (trackers s))"
        unfolding f ps by (simp add: comp_def)
      have c: "centroid (map (\<lambda>(tserial, tr). arr6_xyz (the (pose_at poses tserial t lm))) (trackers s)) =
        (sum_list (map (\<lambda>x. arr6_get (the (?f x)) 0) (trackers s)) / real (length (trackers s)),
         sum_list (map (\<lambda>x. arr6_get (the (?f x)) 1) (trackers s)) / real (length (trackers s)),
         sum_list (map (\<lambda>x. arr6_get (the (?f x)) 2) (trackers s)) / real (length (trackers s)))"
        by (simp add: centroid_def arr6_xyz_def comp_def case_prod_unfold)
      show ?thesis
        using True unfolding f2 c by simp
    next
      case False
      with all have ne: "length ?ps \<noteq> length (trackers s)" by blast
      show ?thesis
        using False ne by (simp add: f)
    qed
  qed
  show ?thesis unfolding world_corresp_def by (simp only: one)
qed

theorem C7_world_correspondences_witness:
  "trackers two0 \<noteq> [] \<and> length (offset two0) = 3 \<and>
   pose_at poses0 ''U'' 2 ''A'' = None \<and>
   world_corresp two0 poses0 ''A'' [(1, Arr6 10 20 30 0 0 0), (2, Arr6 40 50 60 0 0 0)] =
     [((2, 3, 4), (10.5, 20, 30))]"
  using C7_world_correspondences [of two0 poses0 "''A''"
          "[(1, Arr6 10 20 30 0 0 0), (2, Arr6 40 50 60 0 0 0)]"]
  by (simp add: two0_def rec0_def idle0_def poses0_def pose_at_def centroid_def arr6_xyz_def)

subsection \<open>Poses from the time bins\<close>

lemma smap_get_smap_upd:
  "smap_get k d (smap_upd k' d' f m) = (if k = k' then f (smap_get k' d' m) else smap_get k d m)"
  by (simp add: smap_get_def map_of_smap_upd)

lemma pose_at_put_pose:
  "pose_at (put_pose ts t ls p poses) ts' t' ls' =
     (if ts' = ts \<and> t' = t \<and> ls' = ls then Some (pose6 (fst p) (snd p))
      else pose_at poses ts' t' ls')"
  by (auto simp: pose_at_def put_pose_def map_of_smap_upd smap_get_def arr6_fill_pose6
           split: option.splits)

lemma pose_at_Nil: "pose_at [] ts t ls = None"
  by (simp add: pose_at_def)

lemma pnp_bins_pose_at:
  assumes "distinct (map fst bins)"
  shows "pose_at (pnp_bins X s ls lh ts tr bins poses) ts' t' ls' =
    (if ts' = ts \<and> ls' = ls then
       (case map_of bins t' of
          None \<Rightarrow> pose_at poses ts' t' ls'
        | Some sm \<Rightarrow>
           (case solve_instant X s lh tr sm of
              None \<Rightarrow> pose_at poses ts' t' ls'
            | Some p \<Rightarrow> Some (pose6 (fst p) (snd p))))
     else pose_at poses ts' t' ls')"
  using assms unfolding pnp_bins_def
proof (induction bins arbitrary: poses)
  case Nil
  then show ?case by simp
next
  case (Cons b bins)
  obtain t sm where b: "b = (t, sm)" by (cases b)
  from Cons.prems have d: "distinct (map fst bins)" and n: "map_of bins t = None"
    by (auto simp: b map_of_eq_None_iff)
  show ?case
    using n by (auto simp: b Cons.IH [OF d] pose_at_put_pose split: option.splits)
qed

lemma pnp_trackers_fold_pose_at:
  assumes "distinct (map fst trs)" and "\<And>ts. distinct (map fst (B ts))"
  shows "pose_at (fold (\<lambda>(ts, tr). pnp_bins X s ls lh ts tr (B ts)) trs poses) ts' t' ls' =
    (if ls' = ls then
       (case map_of trs ts' of
          None \<Rightarrow> pose_at poses ts' t' ls'
        | Some tr \<Rightarrow>
           (case map_of (B ts') t' of
              None \<Rightarrow> pose_at poses ts' t' ls'
            | Some sm \<Rightarrow>
               (case solve_instant X s lh tr sm of
                  None \<Rightarrow> pose_at poses ts' t' ls'
                | Some p \<Rightarrow> Some (pose6 (fst p) (snd p)))))
     else pose_at poses ts' t' ls')"
  using assms(1)
proof (induction trs arbitrary: poses)
  case Nil
  then show ?case by simp
next
  case (Cons a trs)
  obtain ts tr where a: "a = (ts, tr)" by (cases a)
  from Cons.prems have d: "distinct (map fst trs)" and n: "map_of trs ts = None"
    by (auto simp: a map_of_eq_None_iff)
  show ?case
    using n
    by (auto simp: a Cons.IH [OF d] pnp_bins_pose_at [OF assms(2)] split: option.splits)
qed

lemma pnp_stage_fold_pose_at:
  assumes "distinct (map fst lhs)" and "distinct (map fst (trackers s))"
    and "\<And>ts ls. distinct (map fst (smap_get ls [] (smap_get ts [] bundle)))"
  shows "pose_at (fold (\<lambda>(ls, lh). pnp_trackers X s bundle ls lh) lhs poses) ts' t' ls' =
    (case map_of lhs ls' of
       None \<Rightarrow> pose_at poses ts' t' ls'
     | Some lh \<Rightarrow>
        (case map_of (trackers s) ts' of
          None \<Rightarrow> pose_at poses ts' t' ls'
        | Some tr \<Rightarrow>
           (case map_of (smap_get ls' [] (smap_get ts' [] bundle)) t' of
              None \<Rightarrow> pose_at poses ts' t' ls'
            | Some sm \<Rightarrow>
               (case solve_instant X s lh tr sm of
                  None \<Rightarrow> pose_at poses ts' t' ls'
                | Some p \<Rightarrow> Some (pose6 (fst p) (snd p))))))"
  using assms(1)
proof (induction lhs arbitrary: poses)
  case Nil
  then show ?case by simp
next
  case (Cons a lhs)
  obtain ls lh where a: "a = (ls, lh)" by (cases a)
  from Cons.prems have d: "distinct (map fst lhs)" and n: "map_of lhs ls = None"
    by (auto simp: a map_of_eq_None_iff)
  have tr: "pose_at (pnp_trackers X s bundle ls lh poses) ts' t' u =
    (if u = ls then
       (case map_of (trackers s) ts' of
          None \<Rightarrow> pose_at poses ts' t' u
        | Some tr \<Rightarrow>
           (case map_of (smap_get ls [] (smap_get ts' [] bundle)) t' of
              None \<Rightarrow> pose_at poses ts' t' u
            | Some sm \<Rightarrow>
               (case solve_instant X s lh tr sm of
                  None \<Rightarrow> pose_at poses ts' t' u
                | Some p \<Rightarrow> Some (pose6 (fst p) (snd p)))))
     else pose_at poses ts' t' u)" for poses u
    unfolding pnp_trackers_def
    by (rule pnp_trackers_fold_pose_at [OF assms(2), where B = "\<lambda>ts. smap_get ls [] (smap_get ts [] bundle)"])
       (rule assms(3))
  show ?case
    using n by (auto simp: a Cons.IH [OF d] tr split: option.splits)
qed

lemma pnp_stage_pose_at:
  assumes "distinct (map fst (lighthouses s))" and "distinct (map fst (trackers s))"
    and "\<And>ts ls. distinct (map fst (smap_get ls [] (smap_get ts [] bundle)))"
  shows "pose_at (pnp_stage X s bundle) ts t ls =
    (case map_of (lighthouses s) ls of
       None \<Rightarrow> None
     | Some lh \<Rightarrow>
        (case map_of (trackers s) ts of
          None \<Rightarrow> None
        | Some tr \<Rightarrow>
           (case map_of (smap_get ls [] (smap_get ts [] bundle)) t of
              None \<Rightarrow> None
            | Some sm \<Rightarrow>
               (case solve_instant X s lh tr sm of
                  None \<Rightarrow> None
                | Some p \<Rightarrow> Some (pose6 (fst p) (snd p))))))"
  unfolding pnp_stage_def
  by (simp add: pnp_stage_fold_pose_at [OF assms] pose_at_Nil cong: option.case_cong)

lemma fst_smap_set: "fst ` set (smap_set k v m) = insert k (fst ` set m)"
proof -
  have "dom (map_of (smap_set k v m)) = insert k (dom (map_of m))"
    by (simp add: map_of_smap_set)
  then show ?thesis by (simp add: dom_map_of_conv_image_fst)
qed

lemma sorted_smap_set:
  "sorted_wrt (<) (map fst m) \<Longrightarrow> sorted_wrt (<) (map fst (smap_set k v m))"
proof (induction m)
  case Nil
  then show ?case by simp
next
  case (Cons a m)
  obtain k' v' where a: "a = (k', v')" by (cases a)
  from Cons.prems have s: "sorted_wrt (<) (map fst m)" and lt: "\<forall>x\<in>set (map fst m). k' < x"
    by (auto simp: a)
  show ?case
  proof (cases "k < k'")
    case True
    then show ?thesis using Cons.prems by (auto simp: a)
  next
    case False
    show ?thesis
    proof (cases "k = k'")
      case True
      then show ?thesis using Cons.prems by (auto simp: a)
    next
      case ne: False
      with False have "k' < k" by simp
      then show ?thesis
        using False ne lt Cons.IH [OF s] by (simp add: a fst_smap_set)
    qed
  qed
qed

lemma push_sample_bins:
  "smap_get ls [] (smap_get ts [] (push_sample ts0 ls0 t sn a x b)) =
     (if ts = ts0 \<and> ls = ls0
      then smap_upd t [] (smap_upd sn [] (smap_upd a [] (\<lambda>v. v @ [x])))
             (smap_get ls0 [] (smap_get ts0 [] b))
      else smap_get ls [] (smap_get ts [] b))"
  by (simp add: push_sample_def smap_get_smap_upd)

lemma push_sample_sorted:
  assumes "\<And>ts ls. sorted_wrt (<) (map fst (smap_get ls [] (smap_get ts [] b)))"
  shows "sorted_wrt (<) (map fst (smap_get ls [] (smap_get ts [] (push_sample ts0 ls0 t sn a x b))))"
  by (simp add: push_sample_bins assms smap_upd_def sorted_smap_set)

lemma bundle_fold_sorted:
  assumes "\<And>ts ls. sorted_wrt (<) (map fst (smap_get ls [] (smap_get ts [] b)))"
  shows "sorted_wrt (<) (map fst (smap_get ls [] (smap_get ts []
           (fold (\<lambda>(stamp, m).
              fold (\<lambda>p. push_sample (frame_id (light m)) (lighthouse (light m)) (bk stamp)
                          (sensor p) (axis (light m)) (angle p))
                (pulses (light m))) ms b))))"
  using assms
proof (induction ms arbitrary: b ts ls)
  case Nil
  then show ?case by simp
next
  case (Cons a ms)
  obtain stamp m where a: "a = (stamp, m)" by (cases a)
  have inner: "sorted_wrt (<) (map fst (smap_get ls [] (smap_get ts []
           (fold (\<lambda>p. push_sample f l u (sensor p) ax (angle p)) ps b'))))"
    if "\<And>ts ls. sorted_wrt (<) (map fst (smap_get ls [] (smap_get ts [] b')))"
    for ps :: "Pulse list" and b' f l u ax ts ls
    using that
    by (induction ps arbitrary: b' ts ls) (simp_all add: push_sample_sorted)
  show ?case
    unfolding a by (simp, rule Cons.IH, rule inner, rule Cons.prems)
qed

lemma bundle_measurements_distinct:
  "distinct (map fst (smap_get ls [] (smap_get ts [] (bundle_measurements s))))"
proof -
  have "sorted_wrt (<) (map fst (smap_get ls [] (smap_get ts [] (bundle_measurements s))))"
    unfolding bundle_measurements_def
    by (rule bundle_fold_sorted) (simp add: smap_get_def)
  then show ?thesis
    by (simp add: strict_sorted_iff)
qed

lemma length_sensor_pair:
  "length (sensor_pair X s lh tr sm i) =
     (if smap_get 0 [] (smap_get (word_of_nat i) [] sm) \<noteq> [] \<and>
         smap_get 1 [] (smap_get (word_of_nat i) [] sm) \<noteq> [] then 1 else 0)"
  by (simp add: sensor_pair_def Let_def Mean_def split: prod.splits)

lemma length_concat_filter:
  "(\<And>x. length (f x) = (if P x then 1 else 0)) \<Longrightarrow>
   length (concat (map f xs)) = length (filter P xs)"
  by (induction xs) simp_all

lemma Solve_flag: "fst (Solve X s) \<longleftrightarrow> measurements s \<noteq> []"
  by (simp add: Solve_def Let_def)

lemma upt32: "[0..<32] = [0,1,2,3,4,5,6,7,8,9,10,11,12,13,14,15,16,17,18,19,20,21,22,23,24,25,26,27,28,29,30,31]"
  by (simp add: upt_rec)

text \<open>
  C6: after the loops over lighthouses, trackers and time bins, \<open>poses\<close> holds an entry
  for a tracker, a time and a lighthouse exactly when the bundle has that time bin for the
  pair, the bin yields more than six correspondences and \<open>solvePnPRansac\<close> succeeds on
  them; the entry is then the solver's translation and rotation vector. With six or
  fewer, or when the solver fails, there is no entry. The correspondences of a bin are
  as many as the sensors below \<open>NUM_SENSORS\<close> with a sample on both axes, and \<open>Solve\<close>
  returns \<open>true\<close> whatever the bins yield. (The serials of a \<open>std::map\<close> are distinct.)
\<close>

theorem C6_pose_needs_seven_correspondences:
  assumes "distinct (map fst (lighthouses s))" and "distinct (map fst (trackers s))"
  shows
    "pose_at (pnp_stage X s (bundle_measurements s)) tserial t lserial =
       (case map_of (lighthouses s) lserial of None \<Rightarrow> None | Some lh \<Rightarrow>
       (case map_of (trackers s) tserial of None \<Rightarrow> None | Some tr \<Rightarrow>
       (case map_of (smap_get lserial [] (smap_get tserial [] (bundle_measurements s))) t of
          None \<Rightarrow> None
        | Some sm \<Rightarrow>
            let cs = correspondences X s lh tr sm in
            if 6 < length cs then
              (case solvePnPRansac X (map fst cs) (map snd cs) principal_distance of
                 None \<Rightarrow> None
               | Some (R, T) \<Rightarrow> Some (pose6 T (rotvec X (Rodrigues X R))))
            else None))) \<and>
     length (correspondences X s lh' tr' sm') =
       length (filter (\<lambda>i. smap_get 0 [] (smap_get (word_of_nat i) [] sm') \<noteq> [] \<and>
                            smap_get 1 [] (smap_get (word_of_nat i) [] sm') \<noteq> [])
                 [0..<NUM_SENSORS X]) \<and>
     (measurements s \<noteq> [] \<longrightarrow> fst (Solve X s))"
proof -
  have inst: "(case solve_instant X s lh tr sm of None \<Rightarrow> None
               | Some p \<Rightarrow> Some (pose6 (fst p) (snd p))) =
     (let cs = correspondences X s lh tr sm in
            if 6 < length cs then
              (case solvePnPRansac X (map fst cs) (map snd cs) principal_distance of
                 None \<Rightarrow> None
               | Some (R, T) \<Rightarrow> Some (pose6 T (rotvec X (Rodrigues X R))))
            else None)" for lh tr sm
    by (simp add: solve_instant_def Let_def split: option.splits)
  have "pose_at (pnp_stage X s (bundle_measurements s)) tserial t lserial =
       (case map_of (lighthouses s) lserial of None \<Rightarrow> None | Some lh \<Rightarrow>
       (case map_of (trackers s) tserial of None \<Rightarrow> None | Some tr \<Rightarrow>
       (case map_of (smap_get lserial [] (smap_get tserial [] (bundle_measurements s))) t of
          None \<Rightarrow> None
        | Some sm \<Rightarrow>
            let cs = correspondences X s lh tr sm in
            if 6 < length cs then
              (case solvePnPRansac X (map fst cs) (map snd cs) principal_distance of
                 None \<Rightarrow> None
               | Some (R, T) \<Rightarrow> Some (pose6 T (rotvec X (Rodrigues X R))))
            else None)))"
    unfolding inst [symmetric]
    by (rule pnp_stage_pose_at [OF assms bundle_measurements_distinct])
  moreover have "length (correspondences X s lh' tr' sm') =
       length (filter (\<lambda>i. smap_get 0 [] (smap_get (word_of_nat i) [] sm') \<noteq> [] \<and>
                            smap_get 1 [] (smap_get (word_of_nat i) [] sm') \<noteq> [])
                 [0..<NUM_SENSORS X])"
    unfolding correspondences_def
    by (rule length_concat_filter) (rule length_sensor_pair)
  ultimately show ?thesis
    by (simp add: Solve_flag)
qed


theorem C6_pose_needs_seven_correspondences_witness:
  "distinct (map fst (lighthouses rec7)) \<and> distinct (map fst (trackers rec7)) \<and>
   length (correspondences ext1 rec7 \<lparr>params = [], vTl = Arr6 1 2 3 4 5 6, lh_ready = True\<rparr> trk0
             (map (\<lambda>i. (i, [(0, [1 / 2]), (1, [1 / 2])])) [0, 1, 2, 3, 4, 5, 6])) = 7 \<and>
   pose_at (pnp_stage ext1 rec7 (bundle_measurements rec7)) ''T'' 1 ''A'' = Some (Arr6 1 2 3 0 0 0) \<and>
   pose_at (pnp_stage ext0 rec7 (bundle_measurements rec7)) ''T'' 1 ''A'' = None \<and>
   pose_at (pnp_stage ext1 rec2 (bundle_measurements rec2)) ''T'' 1 ''A'' = None \<and>
   fst (Solve ext1 rec7)"
proof -
  let ?sm = "map (\<lambda>i. (i, [(0, [1 / 2]), (1, [1 / 2 :: real])])) [0, 1, 2, 3, 4, 5, 6 :: 8 word]"
  let ?A = "\<lparr>params = [], vTl = Arr6 1 2 3 4 5 6, lh_ready = True\<rparr>"
  have d7: "distinct (map fst (lighthouses rec7))" "distinct (map fst (trackers rec7))"
    by (simp_all add: rec7_def rec0_def idle0_def)
  have d2: "distinct (map fst (lighthouses rec2))" "distinct (map fst (trackers rec2))"
    by (simp_all add: rec2_def rec0_def idle0_def)
  have l7: "map_of (lighthouses rec7) ''A'' = Some ?A" "map_of (trackers rec7) ''T'' = Some trk0"
           "measurements rec7 \<noteq> []"
    by (simp_all add: rec7_def rec0_def idle0_def)
  have l2: "map_of (lighthouses rec2) ''A'' = Some ?A" "map_of (trackers rec2) ''T'' = Some trk0"
    by (simp_all add: rec2_def rec0_def idle0_def)
  have b7: "bundle_measurements rec7 = [(''T'', [(''A'', [(1, ?sm)])])]"
    by (simp add: bundle_measurements_def rec7_def rec0_def idle0_def sweep0_def pulse0_def
          push_sample_def smap_upd_def smap_get_def bucket_def c_round_def)
  have b2: "bundle_measurements rec2 =
      [(''T'', [(''A'', [(1, [(0, [(0, [1 / 2])]), (1, [(0, [1 / 2])]),
                              (3, [(0, [60 / 57.2958])]), (4, [(0, [1 / 8])])])])])]"
    by (simp add: bundle_measurements_def rec2_def rec0_def idle0_def kept0_def light0_def
          pulse0_def push_sample_def smap_upd_def smap_get_def bucket_def c_round_def)
  have n7: "length (correspondences ext1 rec7 ?A trk0 ?sm) = 7"
           "length (correspondences ext0 rec7 ?A trk0 ?sm) = 7"
    by (simp_all add: correspondences_def sensor_pair_def Mean_def Correct_def smap_get_def
          ext1_def ext0_def upt32 rec7_def rec0_def idle0_def)
  have n2: "length (correspondences ext1 rec2 ?A trk0
              [(0, [(0, [1 / 2])]), (1, [(0, [1 / 2])]), (3, [(0, [60 / 57.2958])]), (4, [(0, [1 / 8])])]) = 0"
    by (simp add: correspondences_def sensor_pair_def Mean_def Correct_def smap_get_def
          ext1_def ext0_def upt32)
  have p1: "pose_at (pnp_stage ext1 rec7 (bundle_measurements rec7)) ''T'' 1 ''A'' =
      Some (Arr6 1 2 3 0 0 0)"
    using C6_pose_needs_seven_correspondences [OF d7, of ext1 "''T''" 1 "''A''" ?A trk0 ?sm] n7(1)
    by (simp add: l7 b7 smap_get_def Let_def)
       (simp add: ext1_def ext0_def pose6_def rotvec_def)
  have p2: "pose_at (pnp_stage ext0 rec7 (bundle_measurements rec7)) ''T'' 1 ''A'' = None"
    using C6_pose_needs_seven_correspondences [OF d7, of ext0 "''T''" 1 "''A''" ?A trk0 ?sm] n7(2)
    by (simp add: l7 b7 smap_get_def Let_def)
       (simp add: ext0_def)
  have p3: "pose_at (pnp_stage ext1 rec2 (bundle_measurements rec2)) ''T'' 1 ''A'' = None"
    using C6_pose_needs_seven_correspondences [OF d2, of ext1 "''T''" 1 "''A''" ?A trk0 ?sm] n2
    by (simp add: l2 b2 smap_get_def Let_def)
  have p4: "fst (Solve ext1 rec7)"
    using C6_pose_needs_seven_correspondences [OF d7, of ext1 "''T''" 1 "''A''" ?A trk0 ?sm] l7(3)
    by simp
  from d7 n7(1) p1 p2 p3 p4 show ?thesis by simp
qed

end
